theory Spec2Isabelle
  imports Main "HOL-Library.List_Lexorder" "HOL-Library.Product_Lexorder"
    "HOL-Library.Multiset" "HOL-Library.Sublist"
begin

section \<open>The mock GraphQL order API: data model\<close>

text \<open>
  The TypeScript interfaces of the server become records. \<open>chainId\<close> is the only field
  of an order that is a JavaScript number (a GraphQL \<open>Int\<close>, so an integer); every other
  field is a string: the amounts, fees, salt and expiration time are decimal strings, the
  addresses, asset data, signature and hash are hexadecimal strings.
\<close>

record Order =
  chainId :: int
  exchangeAddress :: string
  makerAddress :: string
  makerAssetData :: string
  makerAssetAmount :: string
  makerFeeAssetData :: string
  makerFee :: string
  takerAddress :: string
  takerAssetData :: string
  takerAssetAmount :: string
  takerFeeAssetData :: string
  takerFee :: string
  senderAddress :: string
  feeRecipientAddress :: string
  expirationTimeSeconds :: string
  salt :: string
  signature :: string

text \<open>\<open>interface OrderWithMetadata extends Order\<close>\<close>

record OrderWithMetadata = Order +
  hash :: string
  remainingFillableTakerAssetAmount :: string

text \<open>
  \<open>interface NewOrder\<close> lists the same seventeen fields as \<open>Order\<close>; TypeScript types are
  structural, so the two are one type.
\<close>

type_synonym NewOrder = Order

text \<open>
  The GraphQL enum \<open>OrderField\<close>: the eighteen fields a filter or a sort may name (the
  schema rejects any other name before a resolver runs).
\<close>

datatype OrderField =
  F_hash
  | F_chainId
  | F_exchangeAddress
  | F_makerAddress
  | F_makerAssetData
  | F_makerAssetAmount
  | F_makerFeeAssetData
  | F_makerFee
  | F_takerAddress
  | F_takerAssetData
  | F_takerAssetAmount
  | F_takerFeeAssetData
  | F_takerFee
  | F_senderAddress
  | F_feeRecipientAddress
  | F_expirationTimeSeconds
  | F_salt
  | F_remainingFillableTakerAssetAmount

text \<open>
  A JavaScript value of type \<open>number | string\<close>. Numbers are modelled by the integers
  (\<open>chainId\<close> and \<open>limit\<close> are GraphQL \<open>Int\<close>s); there is no \<open>NaN\<close> among them.
\<close>

datatype jsval = JNum int | JStr string

text \<open>
  The enums \<open>FilterKind\<close> and \<open>SortDirection\<close> are string enums; at run time the
  \<open>switch\<close> statements of \<open>ordersResolver\<close> compare the string they receive with these
  constants and fall to \<open>default\<close> on anything else, so the model keeps the string.
\<close>

definition FilterKind_Equal :: string where "FilterKind_Equal = ''EQUAL''"
definition FilterKind_NotEqual :: string where "FilterKind_NotEqual = ''NOT_EQUAL''"
definition FilterKind_Greater :: string where "FilterKind_Greater = ''GREATER''"
definition FilterKind_GreaterOrEqual :: string where
  "FilterKind_GreaterOrEqual = ''GREATER_OR_EQUAL''"
definition FilterKind_Less :: string where "FilterKind_Less = ''LESS''"
definition FilterKind_LessOrEqual :: string where "FilterKind_LessOrEqual = ''LESS_OR_EQUAL''"

definition SortDirection_Asc :: string where "SortDirection_Asc = ''ASC''"
definition SortDirection_Desc :: string where "SortDirection_Desc = ''DESC''"

text \<open>The members of the two enums.\<close>

definition FilterKind :: "string set" where
  "FilterKind =
     {FilterKind_Equal, FilterKind_NotEqual, FilterKind_Greater, FilterKind_GreaterOrEqual,
      FilterKind_Less, FilterKind_LessOrEqual}"

definition SortDirection :: "string set" where
  "SortDirection = {SortDirection_Asc, SortDirection_Desc}"

text \<open>\<open>interface OrderFilter { field; kind; value }\<close>\<close>

record OrderFilter =
  filter_field :: OrderField
  filter_kind :: string
  filter_value :: jsval

text \<open>\<open>interface OrderSort { field; direction }\<close>\<close>

record OrderSort =
  sort_field :: OrderField
  sort_direction :: string

text \<open>\<open>interface OrdersArgs { sort; filters; limit }\<close>\<close>

record OrdersArgs =
  args_sort :: "OrderSort list"
  args_filters :: "OrderFilter list"
  args_limit :: int

datatype RejectedOrderCode =
  EthRPCRequestFailed
  | InvalidMakerAssetAmount
  | InvalidTakerAssetAmount

record AcceptedOrderResult =
  accepted_order :: OrderWithMetadata
  isNew :: bool

text \<open>
  The object literal that \<open>addOrdersResolver\<close> builds for a rejected order has the
  properties \<open>hash\<close>, \<open>order\<close>, \<open>code\<close> and \<open>message\<close>.
\<close>

record RejectedOrderResult =
  rejected_hash :: string
  rejected_order :: Order
  rejected_code :: RejectedOrderCode
  rejected_message :: string

record AddOrdersResults =
  accepted :: "AcceptedOrderResult list"
  rejected :: "RejectedOrderResult list"

text \<open>A thrown \<open>new Error(message)\<close>.\<close>

datatype error = Error string

section \<open>JavaScript operators\<close>

text \<open>
  \<open>order[field]\<close>: the property read, as a dispatch over the eighteen field names.
\<close>

fun order_prop :: "OrderField \<Rightarrow> OrderWithMetadata \<Rightarrow> jsval" where
  "order_prop F_hash ord = JStr (hash ord)"
| "order_prop F_chainId ord = JNum (chainId ord)"
| "order_prop F_exchangeAddress ord = JStr (exchangeAddress ord)"
| "order_prop F_makerAddress ord = JStr (makerAddress ord)"
| "order_prop F_makerAssetData ord = JStr (makerAssetData ord)"
| "order_prop F_makerAssetAmount ord = JStr (makerAssetAmount ord)"
| "order_prop F_makerFeeAssetData ord = JStr (makerFeeAssetData ord)"
| "order_prop F_makerFee ord = JStr (makerFee ord)"
| "order_prop F_takerAddress ord = JStr (takerAddress ord)"
| "order_prop F_takerAssetData ord = JStr (takerAssetData ord)"
| "order_prop F_takerAssetAmount ord = JStr (takerAssetAmount ord)"
| "order_prop F_takerFeeAssetData ord = JStr (takerFeeAssetData ord)"
| "order_prop F_takerFee ord = JStr (takerFee ord)"
| "order_prop F_senderAddress ord = JStr (senderAddress ord)"
| "order_prop F_feeRecipientAddress ord = JStr (feeRecipientAddress ord)"
| "order_prop F_expirationTimeSeconds ord = JStr (expirationTimeSeconds ord)"
| "order_prop F_salt ord = JStr (salt ord)"
| "order_prop F_remainingFillableTakerAssetAmount ord = JStr (remainingFillableTakerAssetAmount ord)"

text \<open>
  The comparison of two strings by \<open><\<close>: if one is a prefix of the other the shorter is
  smaller, otherwise the code units at the first position where they differ decide.
  (A \<open>char\<close> is one byte; the strings of the store are hexadecimal and decimal digits,
  for which bytes and code units are the same.)
\<close>

fun str_lt :: "string \<Rightarrow> string \<Rightarrow> bool" where
  "str_lt [] [] = False"
| "str_lt [] (y # ys) = True"
| "str_lt (x # xs) [] = False"
| "str_lt (x # xs) (y # ys) =
     (if x = y then str_lt xs ys else (of_char x :: nat) < of_char y)"

text \<open>
  \<open>ToNumber\<close>. What JavaScript makes of a string operand when the other operand is a
  number (its numeric-literal grammar, with rounding to a double) is the parameter
  \<open>stn\<close>; \<open>None\<close> is \<open>NaN\<close>. Every theorem below holds for every \<open>stn\<close>.
\<close>

fun ToNumber :: "(string \<Rightarrow> int option) \<Rightarrow> jsval \<Rightarrow> int option" where
  "ToNumber stn (JNum n) = Some n"
| "ToNumber stn (JStr s) = stn s"

text \<open>
  The abstract relational comparison \<open>x < y\<close>: two strings are compared as strings, any
  other pair as numbers; the result is undefined (\<open>None\<close>) when an operand is \<open>NaN\<close>.
\<close>

fun js_less :: "(string \<Rightarrow> int option) \<Rightarrow> jsval \<Rightarrow> jsval \<Rightarrow> bool option" where
  "js_less stn (JStr a) (JStr b) = Some (str_lt a b)"
| "js_less stn x y =
     (case ToNumber stn x of
        None \<Rightarrow> None
      | Some m \<Rightarrow> (case ToNumber stn y of None \<Rightarrow> None | Some n \<Rightarrow> Some (m < n)))"

text \<open>
  The four relational operators. \<open>x <= y\<close> is "\<open>y < x\<close> is false", and false when the
  comparison is undefined; likewise \<open>x >= y\<close>.
\<close>

definition js_lt :: "(string \<Rightarrow> int option) \<Rightarrow> jsval \<Rightarrow> jsval \<Rightarrow> bool" where
  "js_lt stn x y = (js_less stn x y = Some True)"

definition js_gt :: "(string \<Rightarrow> int option) \<Rightarrow> jsval \<Rightarrow> jsval \<Rightarrow> bool" where
  "js_gt stn x y = (js_less stn y x = Some True)"

definition js_le :: "(string \<Rightarrow> int option) \<Rightarrow> jsval \<Rightarrow> jsval \<Rightarrow> bool" where
  "js_le stn x y = (js_less stn y x = Some False)"

definition js_ge :: "(string \<Rightarrow> int option) \<Rightarrow> jsval \<Rightarrow> jsval \<Rightarrow> bool" where
  "js_ge stn x y = (js_less stn x y = Some False)"

text \<open>\<open>===\<close>: values of different types are never strictly equal.\<close>

fun js_strict_eq :: "jsval \<Rightarrow> jsval \<Rightarrow> bool" where
  "js_strict_eq (JNum a) (JNum b) = (a = b)"
| "js_strict_eq (JStr a) (JStr b) = (a = b)"
| "js_strict_eq _ _ = False"

section \<open>The Ramda functions the resolvers call\<close>

text \<open>\<open>R.find(pred, list)\<close>: the first element that satisfies \<open>pred\<close>, or \<open>undefined\<close>.\<close>

fun R_find :: "('a \<Rightarrow> bool) \<Rightarrow> 'a list \<Rightarrow> 'a option" where
  "R_find pred [] = None"
| "R_find pred (x # xs) = (if pred x then Some x else R_find pred xs)"

text \<open>\<open>R.allPass(preds)(x)\<close>: every predicate of the list holds of \<open>x\<close>.\<close>

fun R_allPass :: "('a \<Rightarrow> bool) list \<Rightarrow> 'a \<Rightarrow> bool" where
  "R_allPass [] x = True"
| "R_allPass (p # ps) x = (if p x then R_allPass ps x else False)"

text \<open>\<open>R.filter(pred, list)\<close>: a new array of the elements that satisfy \<open>pred\<close>, in order.\<close>

fun R_filter :: "('a \<Rightarrow> bool) \<Rightarrow> 'a list \<Rightarrow> 'a list" where
  "R_filter pred [] = []"
| "R_filter pred (x # xs) = (if pred x then x # R_filter pred xs else R_filter pred xs)"

text \<open>
  \<open>R.ascend(fn)(a, b)\<close> is \<open>aa < bb ? -1 : aa > bb ? 1 : 0\<close> with \<open>aa = fn(a)\<close> and
  \<open>bb = fn(b)\<close>; \<open>R.descend\<close> is \<open>aa > bb ? -1 : aa < bb ? 1 : 0\<close>.
\<close>

definition R_ascend ::
  "(string \<Rightarrow> int option) \<Rightarrow> ('a \<Rightarrow> jsval) \<Rightarrow> 'a \<Rightarrow> 'a \<Rightarrow> int" where
  "R_ascend stn fn a b =
     (if js_lt stn (fn a) (fn b) then - 1 else if js_gt stn (fn a) (fn b) then 1 else 0)"

definition R_descend ::
  "(string \<Rightarrow> int option) \<Rightarrow> ('a \<Rightarrow> jsval) \<Rightarrow> 'a \<Rightarrow> 'a \<Rightarrow> int" where
  "R_descend stn fn a b =
     (if js_gt stn (fn a) (fn b) then - 1 else if js_lt stn (fn a) (fn b) then 1 else 0)"

text \<open>
  The comparator that \<open>R.sortWith(fns)\<close> hands to \<open>Array.prototype.sort\<close>: the result of
  the first function of \<open>fns\<close> that does not return \<open>0\<close>, and \<open>0\<close> if there is none.
\<close>

fun sortWith_compare :: "('a \<Rightarrow> 'a \<Rightarrow> int) list \<Rightarrow> 'a \<Rightarrow> 'a \<Rightarrow> int" where
  "sortWith_compare [] a b = 0"
| "sortWith_compare (f # fs) a b =
     (if f a b = 0 then sortWith_compare fs a b else f a b)"

text \<open>
  \<open>Array.prototype.sort(comparefn)\<close>, which ECMAScript requires to be stable, as a stable
  insertion sort: an element goes before the first element that it does not compare
  greater than.
\<close>

fun insert_sorted :: "('a \<Rightarrow> 'a \<Rightarrow> int) \<Rightarrow> 'a \<Rightarrow> 'a list \<Rightarrow> 'a list" where
  "insert_sorted cmp x [] = [x]"
| "insert_sorted cmp x (y # ys) =
     (if cmp x y \<le> 0 then x # y # ys else y # insert_sorted cmp x ys)"

fun Array_sort :: "('a \<Rightarrow> 'a \<Rightarrow> int) \<Rightarrow> 'a list \<Rightarrow> 'a list" where
  "Array_sort cmp [] = []"
| "Array_sort cmp (x # xs) = insert_sorted cmp x (Array_sort cmp xs)"

text \<open>\<open>R.sortWith(fns, list)\<close>: a copy of \<open>list\<close>, sorted with that comparator.\<close>

definition R_sortWith :: "('a \<Rightarrow> 'a \<Rightarrow> int) list \<Rightarrow> 'a list \<Rightarrow> 'a list" where
  "R_sortWith fns xs = Array_sort (sortWith_compare fns) xs"

text \<open>
  \<open>R.take(n, xs)\<close> is \<open>slice(0, n < 0 ? Infinity : n, xs)\<close>: the first \<open>n\<close> elements, and
  the whole list when \<open>n\<close> is negative.
\<close>

definition R_take :: "int \<Rightarrow> 'a list \<Rightarrow> 'a list" where
  "R_take n xs = (if n < 0 then xs else take (nat n) xs)"

text \<open>
  \<open>R.splitEvery(n, list)\<close>: throws unless \<open>n\<close> is positive, and otherwise cuts \<open>list\<close> into
  consecutive slices of length \<open>n\<close> (the last one may be shorter).
\<close>

function splitEvery_loop :: "nat \<Rightarrow> 'a list \<Rightarrow> 'a list list" where
  "splitEvery_loop n xs =
     (if n = 0 \<or> xs = [] then [] else take n xs # splitEvery_loop n (drop n xs))"
  by pat_completeness auto
termination
  by (relation "measure (\<lambda>(n, xs). length xs)") auto

declare splitEvery_loop.simps [simp del]

definition R_splitEvery :: "int \<Rightarrow> 'a list \<Rightarrow> error + 'a list list" where
  "R_splitEvery n xs =
     (if n \<le> 0 then Inl (Error ''First argument to splitEvery must be a positive integer'')
      else Inr (splitEvery_loop (nat n) xs))"

text \<open>\<open>array.map(f)\<close> with an \<open>f\<close> that may throw: the first exception ends the loop.\<close>

fun map_throwing :: "('a \<Rightarrow> error + 'b) \<Rightarrow> 'a list \<Rightarrow> error + 'b list" where
  "map_throwing f [] = Inr []"
| "map_throwing f (x # xs) =
     (case f x of
        Inl e \<Rightarrow> Inl e
      | Inr y \<Rightarrow> (case map_throwing f xs of Inl e \<Rightarrow> Inl e | Inr ys \<Rightarrow> Inr (y # ys)))"

text \<open>\<open>xs[i]\<close> in a destructuring pattern: \<open>undefined\<close> past the end.\<close>

fun element_at :: "'a list \<Rightarrow> nat \<Rightarrow> 'a option" where
  "element_at [] i = None"
| "element_at (x # xs) 0 = Some x"
| "element_at (x # xs) (Suc i) = element_at xs i"

section \<open>The resolvers\<close>

text \<open>
  \<open>mockOrders\<close>, the module-level array every query reads, is the argument \<open>store\<close>.
\<close>

definition orderResolver :: "OrderWithMetadata list \<Rightarrow> string \<Rightarrow> OrderWithMetadata option" where
  "orderResolver store h = R_find (\<lambda>ord. hash ord = h) store"

text \<open>The body of \<open>args.filters.map\<close>: the \<open>switch\<close> over \<open>filter.kind\<close>.\<close>

definition compile_filter ::
  "(string \<Rightarrow> int option) \<Rightarrow> OrderFilter \<Rightarrow> error + (OrderWithMetadata \<Rightarrow> bool)" where
  "compile_filter stn f =
     (if filter_kind f = FilterKind_Equal then
        Inr (\<lambda>ord. js_strict_eq (order_prop (filter_field f) ord) (filter_value f))
      else if filter_kind f = FilterKind_NotEqual then
        Inr (\<lambda>ord. \<not> js_strict_eq (order_prop (filter_field f) ord) (filter_value f))
      else if filter_kind f = FilterKind_Greater then
        Inr (\<lambda>ord. js_gt stn (order_prop (filter_field f) ord) (filter_value f))
      else if filter_kind f = FilterKind_GreaterOrEqual then
        Inr (\<lambda>ord. js_ge stn (order_prop (filter_field f) ord) (filter_value f))
      else if filter_kind f = FilterKind_Less then
        Inr (\<lambda>ord. js_lt stn (order_prop (filter_field f) ord) (filter_value f))
      else if filter_kind f = FilterKind_LessOrEqual then
        Inr (\<lambda>ord. js_le stn (order_prop (filter_field f) ord) (filter_value f))
      else Inl (Error (''unexpected filter kind: '' @ filter_kind f)))"

text \<open>The body of \<open>args.sort.map\<close>: the \<open>switch\<close> over \<open>sort.direction\<close>.\<close>

definition compile_sort ::
  "(string \<Rightarrow> int option) \<Rightarrow> OrderSort \<Rightarrow>
     error + (OrderWithMetadata \<Rightarrow> OrderWithMetadata \<Rightarrow> int)" where
  "compile_sort stn s =
     (if sort_direction s = SortDirection_Asc then Inr (R_ascend stn (order_prop (sort_field s)))
      else if sort_direction s = SortDirection_Desc then
        Inr (R_descend stn (order_prop (sort_field s)))
      else Inl (Error (''unexpected sort direction: '' @ sort_direction s)))"

text \<open>
  \<open>ordersResolver\<close>: compile the filters, then the sorters (either may throw), then run
  \<open>R.pipe(R.filter(R.allPass(filters)), R.sortWith(sorters), R.take(args.limit))\<close> on
  \<open>mockOrders\<close>.
\<close>

definition ordersResolver ::
  "(string \<Rightarrow> int option) \<Rightarrow> OrderWithMetadata list \<Rightarrow> OrdersArgs \<Rightarrow>
     error + OrderWithMetadata list" where
  "ordersResolver stn store args =
     (case map_throwing (compile_filter stn) (args_filters args) of
        Inl e \<Rightarrow> Inl e
      | Inr filters \<Rightarrow>
          (case map_throwing (compile_sort stn) (args_sort args) of
             Inl e \<Rightarrow> Inl e
           | Inr sorters \<Rightarrow>
               Inr (R_take (args_limit args)
                      (R_sortWith sorters (R_filter (R_allPass filters) store)))))"

text \<open>
  \<open>addOrdersResolver\<close>: \<open>R.splitEvery(1, args.orders)\<close>, of which the destructuring
  pattern \<open>[acceptedOrders, rejectedOrders]\<close> reads the first two elements.
\<close>

definition accept_order :: "NewOrder \<Rightarrow> AcceptedOrderResult" where
  "accept_order ord =
     \<lparr> accepted_order =
         Order.extend ord
           (OrderWithMetadata.fields
              ''0x06d15403630b6d83fbacbf0864eb76c2db3d6e6fc8adec8a95fc536593f17c53''
              ''150000''),
       isNew = True \<rparr>"

definition reject_order :: "NewOrder \<Rightarrow> RejectedOrderResult" where
  "reject_order ord =
     \<lparr> rejected_hash = ''0x06d15403630b6d83fbacbf0864eb76c2db3d6e6fc8adec8a95fc536593f17c53'',
       rejected_order = ord,
       rejected_code = EthRPCRequestFailed,
       rejected_message = ''network request to Ethereum RPC endpoint failed'' \<rparr>"

definition addOrdersResolver :: "NewOrder list \<Rightarrow> error + AddOrdersResults" where
  "addOrdersResolver orders =
     (case R_splitEvery 1 orders of
        Inl e \<Rightarrow> Inl e
      | Inr chunks \<Rightarrow>
          Inr \<lparr> accepted =
                  (case element_at chunks 0 of
                     None \<Rightarrow> []
                   | Some acceptedOrders \<Rightarrow> map accept_order acceptedOrders),
                rejected =
                  (case element_at chunks 1 of
                     None \<Rightarrow> []
                   | Some rejectedOrders \<Rightarrow> map reject_order rejectedOrders) \<rparr>)"

text \<open>
  What one filter says of one order: the predicate compiled from the filter, applied to
  the order. What one sort option says of two orders: the comparator compiled from it,
  applied to the two. (A filter or a sort option that does not compile says nothing.)
\<close>

definition filter_accepts ::
  "(string \<Rightarrow> int option) \<Rightarrow> OrderFilter \<Rightarrow> OrderWithMetadata \<Rightarrow> bool" where
  "filter_accepts stn f ord = (case compile_filter stn f of Inl e \<Rightarrow> False | Inr p \<Rightarrow> p ord)"

definition sort_compare ::
  "(string \<Rightarrow> int option) \<Rightarrow> OrderSort \<Rightarrow> OrderWithMetadata \<Rightarrow> OrderWithMetadata \<Rightarrow> int" where
  "sort_compare stn s a b = (case compile_sort stn s of Inl e \<Rightarrow> 0 | Inr c \<Rightarrow> c a b)"

section \<open>The arrays in memory\<close>

text \<open>
  JavaScript arrays are objects on the heap, and \<open>Array.prototype.sort\<close> sorts the array
  that it is called on. To say which arrays a query writes, the heap is a list of arrays
  and a reference is an index into it. A new array is put at the end.
\<close>

type_synonym ref = nat
type_synonym heap = "OrderWithMetadata list list"

definition alloc :: "OrderWithMetadata list \<Rightarrow> heap \<Rightarrow> ref \<times> heap" where
  "alloc xs h = (length h, h @ [xs])"

text \<open>\<open>R.filter\<close> builds its result in a new array.\<close>

definition R_filter_heap :: "(OrderWithMetadata \<Rightarrow> bool) \<Rightarrow> ref \<Rightarrow> heap \<Rightarrow> ref \<times> heap" where
  "R_filter_heap pred r h = alloc (R_filter pred (h ! r)) h"

text \<open>
  \<open>R.sortWith\<close> is \<open>Array.prototype.slice.call(list, 0).sort(...)\<close>: it copies the list
  into a new array and sorts that array in place.
\<close>

definition R_sortWith_heap ::
  "(OrderWithMetadata \<Rightarrow> OrderWithMetadata \<Rightarrow> int) list \<Rightarrow> ref \<Rightarrow> heap \<Rightarrow> ref \<times> heap" where
  "R_sortWith_heap fns r h =
     (case alloc (h ! r) h of
        (c, h') \<Rightarrow> (c, h'[c := Array_sort (sortWith_compare fns) (h' ! c)]))"

text \<open>\<open>R.take\<close> is a \<open>slice\<close>, which returns a new array.\<close>

definition R_take_heap :: "int \<Rightarrow> ref \<Rightarrow> heap \<Rightarrow> ref \<times> heap" where
  "R_take_heap n r h = alloc (R_take n (h ! r)) h"

text \<open>
  The resolvers over the heap; \<open>mockOrders\<close> is the reference held by the module-level
  constant. A resolver returns what it returns or throws, and the heap it leaves.
\<close>

definition orderResolver_heap ::
  "ref \<Rightarrow> string \<Rightarrow> heap \<Rightarrow> OrderWithMetadata option \<times> heap" where
  "orderResolver_heap mockOrders h0 h = (R_find (\<lambda>ord. hash ord = h0) (h ! mockOrders), h)"

definition ordersResolver_heap ::
  "(string \<Rightarrow> int option) \<Rightarrow> ref \<Rightarrow> OrdersArgs \<Rightarrow> heap \<Rightarrow> (error + ref) \<times> heap" where
  "ordersResolver_heap stn mockOrders args h =
     (case map_throwing (compile_filter stn) (args_filters args) of
        Inl e \<Rightarrow> (Inl e, h)
      | Inr filters \<Rightarrow>
          (case map_throwing (compile_sort stn) (args_sort args) of
             Inl e \<Rightarrow> (Inl e, h)
           | Inr sorters \<Rightarrow>
               (case R_filter_heap (R_allPass filters) mockOrders h of
                  (r1, h1) \<Rightarrow>
                    (case R_sortWith_heap sorters r1 h1 of
                       (r2, h2) \<Rightarrow>
                         (case R_take_heap (args_limit args) r2 h2 of
                            (r3, h3) \<Rightarrow> (Inr r3, h3))))))"

section \<open>Sample data\<close>

text \<open>Two of the records of \<open>mockOrders\<close> (the second and the third).\<close>

definition mockOrder_1 :: OrderWithMetadata where
  "mockOrder_1 =
     \<lparr> chainId = 1,
       exchangeAddress = ''0x61935cbdd02287b511119ddb11aeb42f1593b7ef'',
       makerAddress = ''0x0c5fa5fa51d84227bfacdc56b36329286b37d051'',
       makerAssetData =
         ''0xf47261b0000000000000000000000000c02aaa39b223fe8d0a0e5c4f27ead9083c756cc2'',
       makerAssetAmount = ''50911000000000000'',
       makerFeeAssetData = ''0x'',
       makerFee = ''0'',
       takerAddress = ''0x0000000000000000000000000000000000000000'',
       takerAssetData =
         ''0xf47261b000000000000000000000000058b6a8a3302369daec383334672404ee733ab239'',
       takerAssetAmount = ''10000000000000000000'',
       takerFeeAssetData = ''0x'',
       takerFee = ''0'',
       senderAddress = ''0x0000000000000000000000000000000000000000'',
       feeRecipientAddress = ''0xa258b39954cef5cb142fd567a46cddb31a670124'',
       expirationTimeSeconds = ''1592663792'',
       salt = ''1590244702461'',
       signature =
         ''0x1bf931ab06551bbbd3a7e272ca4833503d768caca2cac564b157b46c906c7b41c57fd6146b500e1ad2dac729c351142764cb76efc975c6d7c64aef6cf7930c075d02'',
       hash = ''0x181af7476932a167bb95224a0cc0f627c422c49c2f0698bf7b1bf0525518fdf1'',
       remainingFillableTakerAssetAmount = ''10000000000000000000'' \<rparr>"

definition mockOrder_2 :: OrderWithMetadata where
  "mockOrder_2 =
     \<lparr> chainId = 1,
       exchangeAddress = ''0x61935cbdd02287b511119ddb11aeb42f1593b7ef'',
       makerAddress = ''0x9899beaad8ded0402c39148afdd03850dfe29fda'',
       makerAssetData =
         ''0xf47261b0000000000000000000000000a0b86991c6218b36c1d19d4a2e9eb0ce3606eb48'',
       makerAssetAmount = ''2000000'',
       makerFeeAssetData =
         ''0xf47261b0000000000000000000000000a0b86991c6218b36c1d19d4a2e9eb0ce3606eb48'',
       makerFee = ''30000'',
       takerAddress = ''0x56d9fb185343ff68484abb2964ad319728083cc9'',
       takerAssetData =
         ''0x0257179200000000000000000000000048acc9ccee8b3581325fdf5171a997b02e95f781000000000000000000000000000000000000000000000000000000000000002c'',
       takerAssetAmount = ''1'',
       takerFeeAssetData =
         ''0xf47261b0000000000000000000000000a0b86991c6218b36c1d19d4a2e9eb0ce3606eb48'',
       takerFee = ''30000'',
       senderAddress = ''0x0000000000000000000000000000000000000000'',
       feeRecipientAddress = ''0xf19c44431b01bc31a18cd69c5e334b6f255b16e8'',
       expirationTimeSeconds = ''1592208000000'',
       salt = ''1591360002494'',
       signature =
         ''0x1be71eb13970f5f428843b64b697132c498bff99d878eb496e1bfc1616d3eadc862f622cef8d8766ef5e7180505af723eda590c7d9f580b19c485488dc33ff805402'',
       hash = ''0x1c4277bd277bab56cece52d53533361fc5b90428bddfc52eac2c32f6881ba08d'',
       remainingFillableTakerAssetAmount = ''1'' \<rparr>"

text \<open>A record like \<open>mockOrder_1\<close> whose maker asset amount is ten.\<close>

definition order_amount_10 :: OrderWithMetadata where
  "order_amount_10 = mockOrder_1 \<lparr> makerAssetAmount := ''10'' \<rparr>"

text \<open>The orders that a client submits: the protocol fields of a stored record.\<close>

definition newOrder_1 :: NewOrder where
  "newOrder_1 = Order.truncate mockOrder_1"

definition newOrder_2 :: NewOrder where
  "newOrder_2 = Order.truncate mockOrder_2"

definition newOrder_3 :: NewOrder where
  "newOrder_3 = newOrder_1 \<lparr> salt := ''1590244702462'' \<rparr>"

text \<open>
  One string-to-number conversion, for the evaluation of a query at a concrete input: a
  string of decimal digits has its value, the empty string is zero, and any other string
  counts as \<open>NaN\<close>.
\<close>

fun digits_value :: "int \<Rightarrow> string \<Rightarrow> int option" where
  "digits_value acc [] = Some acc"
| "digits_value acc (c # cs) =
     (if (48::nat) \<le> of_char c \<and> (of_char c :: nat) \<le> 57
      then digits_value (10 * acc + (of_char c - 48)) cs
      else None)"

definition decimal_number :: "string \<Rightarrow> int option" where
  "decimal_number s = digits_value 0 s"

section \<open>The order of JavaScript values of one type\<close>

text \<open>
  A rank in a linear order: among strings, and among numbers, \<open><\<close> of JavaScript is the
  order of the ranks.
\<close>

fun rank :: "jsval \<Rightarrow> int \<times> nat list" where
  "rank (JNum n) = (n, [])"
| "rank (JStr s) = (0, map of_char s)"

text \<open>The code units of two characters, compared.\<close>

definition code_unit_less :: "(char \<times> char) set" where
  "code_unit_less = {(x, y). (of_char x :: nat) < of_char y}"

section \<open>Comparators and sample queries\<close>

text \<open>
  A comparator is consistent when swapping its arguments negates the result, two
  elements that it ties compare alike with every third one, and "before" is transitive.
\<close>

definition consistent :: "('a \<Rightarrow> 'a \<Rightarrow> int) \<Rightarrow> bool" where
  "consistent c \<longleftrightarrow>
     (\<forall>a b. c b a = - c a b) \<and>
     (\<forall>a b x. c a b = 0 \<longrightarrow> c a x = c b x) \<and>
     (\<forall>a b x. c a b < 0 \<longrightarrow> c b x < 0 \<longrightarrow> c a x < 0)"

text \<open>The three-way comparison of two keys of a linear order.\<close>

definition three_way :: "'k::linorder \<Rightarrow> 'k \<Rightarrow> int" where
  "three_way x y = (if x < y then - 1 else if y < x then 1 else 0)"

text \<open>A store of two records, and the filters and sort options of some queries.\<close>

definition sample_store :: "OrderWithMetadata list" where
  "sample_store = [mockOrder_1, mockOrder_2]"

definition sample_filters :: "OrderFilter list" where
  "sample_filters =
     [\<lparr> filter_field = F_makerAssetAmount, filter_kind = FilterKind_Greater,
        filter_value = JStr ''5'' \<rparr>,
      \<lparr> filter_field = F_chainId, filter_kind = FilterKind_Equal, filter_value = JNum 1 \<rparr>]"

definition sample_sort :: "OrderSort list" where
  "sample_sort =
     [\<lparr> sort_field = F_chainId, sort_direction = SortDirection_Desc \<rparr>,
      \<lparr> sort_field = F_makerFee, sort_direction = SortDirection_Asc \<rparr>]"

definition sort_by_chain_then_fee :: "OrderSort list" where
  "sort_by_chain_then_fee =
     [\<lparr> sort_field = F_chainId, sort_direction = SortDirection_Asc \<rparr>,
      \<lparr> sort_field = F_makerFee, sort_direction = SortDirection_Desc \<rparr>]"

definition sort_by_chain :: "OrderSort list" where
  "sort_by_chain = [\<lparr> sort_field = F_chainId, sort_direction = SortDirection_Asc \<rparr>]"

definition sort_by_expiration :: "OrderSort list" where
  "sort_by_expiration =
     [\<lparr> sort_field = F_expirationTimeSeconds, sort_direction = SortDirection_Asc \<rparr>]"

definition sort_by_chain_then_expiration :: "OrderSort list" where
  "sort_by_chain_then_expiration =
     [\<lparr> sort_field = F_chainId, sort_direction = SortDirection_Asc \<rparr>,
      \<lparr> sort_field = F_expirationTimeSeconds, sort_direction = SortDirection_Asc \<rparr>]"

section \<open>The library functions\<close>

lemmas FilterKind_defs =
  FilterKind_Equal_def FilterKind_NotEqual_def FilterKind_Greater_def
  FilterKind_GreaterOrEqual_def FilterKind_Less_def FilterKind_LessOrEqual_def

lemmas SortDirection_defs = SortDirection_Asc_def SortDirection_Desc_def

lemma FilterKind_members:
  "FilterKind_Equal \<in> FilterKind" "FilterKind_NotEqual \<in> FilterKind"
  "FilterKind_Greater \<in> FilterKind" "FilterKind_GreaterOrEqual \<in> FilterKind"
  "FilterKind_Less \<in> FilterKind" "FilterKind_LessOrEqual \<in> FilterKind"
  by (simp_all add: FilterKind_def)

lemma SortDirection_members:
  "SortDirection_Asc \<in> SortDirection" "SortDirection_Desc \<in> SortDirection"
  by (simp_all add: SortDirection_def)

lemma R_filter_eq: "R_filter pred xs = filter pred xs"
  by (induction xs) simp_all

lemma R_allPass_eq: "R_allPass ps x = (\<forall>p\<in>set ps. p x)"
  by (induction ps) simp_all

lemma R_allPass_map: "R_allPass (map g fs) = (\<lambda>x. \<forall>f\<in>set fs. g f x)"
  by (simp add: fun_eq_iff R_allPass_eq)

lemma R_find_None: "R_find pred xs = None \<longleftrightarrow> (\<forall>x\<in>set xs. \<not> pred x)"
  by (induction xs) simp_all

lemma R_find_Some: "R_find pred xs = Some x \<Longrightarrow> x \<in> set xs \<and> pred x"
  by (induction xs) (auto split: if_splits)

lemma map_throwing_Inr:
  "(\<forall>x\<in>set xs. \<exists>y. f x = Inr y) \<Longrightarrow> map_throwing f xs = Inr (map (\<lambda>x. projr (f x)) xs)"
  by (induction xs) auto

lemma map_throwing_Inl:
  "\<exists>x\<in>set xs. isl (f x) \<Longrightarrow>
   \<exists>x\<in>set xs. isl (f x) \<and> map_throwing f xs = Inl (projl (f x))"
proof (induction xs)
  case Nil
  then show ?case by simp
next
  case (Cons a xs)
  show ?case
  proof (cases "f a")
    case (Inl e)
    then show ?thesis by simp
  next
    case (Inr y)
    with Cons.prems have "\<exists>x\<in>set xs. isl (f x)" by auto
    from Cons.IH [OF this] obtain x where "x \<in> set xs" "isl (f x)"
      "map_throwing f xs = Inl (projl (f x))" by blast
    with Inr show ?thesis by auto
  qed
qed

section \<open>Compiling filters and sort options\<close>

lemma compile_filter_valid:
  "filter_kind f \<in> FilterKind \<Longrightarrow> compile_filter stn f = Inr (filter_accepts stn f)"
  unfolding filter_accepts_def FilterKind_def compile_filter_def
  by (auto simp: fun_eq_iff)

lemma compile_filter_invalid:
  "filter_kind f \<notin> FilterKind \<Longrightarrow>
   compile_filter stn f = Inl (Error (''unexpected filter kind: '' @ filter_kind f))"
  unfolding FilterKind_def compile_filter_def by simp

lemma compile_sort_valid:
  "sort_direction s \<in> SortDirection \<Longrightarrow> compile_sort stn s = Inr (sort_compare stn s)"
  unfolding sort_compare_def SortDirection_def compile_sort_def
  by (auto simp: fun_eq_iff)

lemma compile_sort_invalid:
  "sort_direction s \<notin> SortDirection \<Longrightarrow>
   compile_sort stn s = Inl (Error (''unexpected sort direction: '' @ sort_direction s))"
  unfolding SortDirection_def compile_sort_def by simp

lemma compile_filters_valid:
  assumes "\<forall>f\<in>set fs. filter_kind f \<in> FilterKind"
  shows "map_throwing (compile_filter stn) fs = Inr (map (filter_accepts stn) fs)"
proof -
  have "map_throwing (compile_filter stn) fs = Inr (map (\<lambda>x. projr (compile_filter stn x)) fs)"
    using assms by (intro map_throwing_Inr) (simp add: compile_filter_valid)
  moreover have "map (\<lambda>x. projr (compile_filter stn x)) fs = map (filter_accepts stn) fs"
    using assms by (simp add: compile_filter_valid)
  ultimately show ?thesis by simp
qed

lemma compile_sorts_valid:
  assumes "\<forall>s\<in>set ss. sort_direction s \<in> SortDirection"
  shows "map_throwing (compile_sort stn) ss = Inr (map (sort_compare stn) ss)"
proof -
  have "map_throwing (compile_sort stn) ss = Inr (map (\<lambda>x. projr (compile_sort stn x)) ss)"
    using assms by (intro map_throwing_Inr) (simp add: compile_sort_valid)
  moreover have "map (\<lambda>x. projr (compile_sort stn x)) ss = map (sort_compare stn) ss"
    using assms by (simp add: compile_sort_valid)
  ultimately show ?thesis by simp
qed

lemma projl_compile_filter:
  "isl (compile_filter stn f) \<longleftrightarrow> filter_kind f \<notin> FilterKind"
  by (cases "filter_kind f \<in> FilterKind")
    (simp_all add: compile_filter_valid compile_filter_invalid)

lemma projl_compile_sort:
  "isl (compile_sort stn s) \<longleftrightarrow> sort_direction s \<notin> SortDirection"
  by (cases "sort_direction s \<in> SortDirection")
    (simp_all add: compile_sort_valid compile_sort_invalid)

lemma compile_filters_invalid:
  assumes "\<not> list_all (\<lambda>f. filter_kind f \<in> FilterKind) fs"
  shows "\<exists>f\<in>set fs. filter_kind f \<notin> FilterKind \<and>
     map_throwing (compile_filter stn) fs =
       Inl (Error (''unexpected filter kind: '' @ filter_kind f))"
proof -
  from assms have "\<exists>f\<in>set fs. isl (compile_filter stn f)"
    by (simp add: list_all_iff projl_compile_filter)
  from map_throwing_Inl [OF this] obtain f where f: "f \<in> set fs" "isl (compile_filter stn f)"
    "map_throwing (compile_filter stn) fs = Inl (projl (compile_filter stn f))" by blast
  from f(2) have "filter_kind f \<notin> FilterKind" by (simp add: projl_compile_filter)
  with f(1,3) show ?thesis by (auto simp: compile_filter_invalid)
qed

lemma compile_sorts_invalid:
  assumes "\<not> list_all (\<lambda>s. sort_direction s \<in> SortDirection) ss"
  shows "\<exists>s\<in>set ss. sort_direction s \<notin> SortDirection \<and>
     map_throwing (compile_sort stn) ss =
       Inl (Error (''unexpected sort direction: '' @ sort_direction s))"
proof -
  from assms have "\<exists>s\<in>set ss. isl (compile_sort stn s)"
    by (simp add: list_all_iff projl_compile_sort)
  from map_throwing_Inl [OF this] obtain s where s: "s \<in> set ss" "isl (compile_sort stn s)"
    "map_throwing (compile_sort stn) ss = Inl (projl (compile_sort stn s))" by blast
  from s(2) have "sort_direction s \<notin> SortDirection" by (simp add: projl_compile_sort)
  with s(1,3) show ?thesis by (auto simp: compile_sort_invalid)
qed

text \<open>
  A query whose filter kinds and sort directions are all members of their enums returns:
  it filters the store by the conjunction of the filters, sorts, and takes.
\<close>

lemma ordersResolver_valid:
  assumes "\<forall>f\<in>set (args_filters args). filter_kind f \<in> FilterKind"
    and "\<forall>s\<in>set (args_sort args). sort_direction s \<in> SortDirection"
  shows "ordersResolver stn store args =
     Inr (R_take (args_limit args)
           (Array_sort (sortWith_compare (map (sort_compare stn) (args_sort args)))
             (filter (\<lambda>ord. \<forall>f\<in>set (args_filters args). filter_accepts stn f ord) store)))"
  unfolding ordersResolver_def
  by (simp add: compile_filters_valid [OF assms(1)] compile_sorts_valid [OF assms(2)]
      R_sortWith_def R_filter_eq R_allPass_map)

lemma ordersResolver_valid':
  assumes "list_all (\<lambda>f. filter_kind f \<in> FilterKind) (args_filters args)"
    and "list_all (\<lambda>s. sort_direction s \<in> SortDirection) (args_sort args)"
  shows "ordersResolver stn store args =
     Inr (R_take (args_limit args)
           (R_sortWith (map (sort_compare stn) (args_sort args))
             (filter (\<lambda>ord. list_all (\<lambda>f. filter_accepts stn f ord) (args_filters args)) store)))"
  using assms ordersResolver_valid [of args stn store]
  by (simp add: list_all_iff R_sortWith_def)

lemma sample_filters_valid: "list_all (\<lambda>f. filter_kind f \<in> FilterKind) sample_filters"
  by (simp add: sample_filters_def FilterKind_members)

lemma sample_sort_valid: "list_all (\<lambda>s. sort_direction s \<in> SortDirection) sample_sort"
  by (simp add: sample_sort_def SortDirection_members)

lemma sort_by_chain_then_fee_valid:
  "list_all (\<lambda>s. sort_direction s \<in> SortDirection) sort_by_chain_then_fee"
  by (simp add: sort_by_chain_then_fee_def SortDirection_members)

lemma sort_by_chain_valid: "list_all (\<lambda>s. sort_direction s \<in> SortDirection) sort_by_chain"
  by (simp add: sort_by_chain_def SortDirection_members)

lemma hash_mockOrder_1:
  "hash mockOrder_1 = ''0x181af7476932a167bb95224a0cc0f627c422c49c2f0698bf7b1bf0525518fdf1''"
  by (simp add: mockOrder_1_def)

lemma hash_mockOrder_2:
  "hash mockOrder_2 = ''0x1c4277bd277bab56cece52d53533361fc5b90428bddfc52eac2c32f6881ba08d''"
  by (simp add: mockOrder_2_def)

lemma chainId_mockOrders: "chainId mockOrder_1 = 1" "chainId mockOrder_2 = 1"
  by (simp_all add: mockOrder_1_def mockOrder_2_def)

lemma makerFee_mockOrders: "makerFee mockOrder_1 = ''0''" "makerFee mockOrder_2 = ''30000''"
  by (simp_all add: mockOrder_1_def mockOrder_2_def)

section \<open>Filters\<close>

text \<open>What the two sample filters say of the two sample records.\<close>

lemma accepts_amount_greater_5:
  "filter_accepts decimal_number
     \<lparr> filter_field = F_makerAssetAmount, filter_kind = FilterKind_Greater,
       filter_value = JStr ''5'' \<rparr> mockOrder_1"
  by (simp add: filter_accepts_def compile_filter_def js_gt_def mockOrder_1_def FilterKind_defs)

lemma accepts_chainId_1:
  "filter_accepts decimal_number
     \<lparr> filter_field = F_chainId, filter_kind = FilterKind_Equal, filter_value = JNum 1 \<rparr>
     mockOrder_1"
  by (simp add: filter_accepts_def compile_filter_def mockOrder_1_def FilterKind_defs)

lemma rejects_amount_greater_5:
  "\<not> filter_accepts decimal_number
     \<lparr> filter_field = F_makerAssetAmount, filter_kind = FilterKind_Greater,
       filter_value = JStr ''5'' \<rparr> mockOrder_2"
  by (simp add: filter_accepts_def compile_filter_def js_gt_def mockOrder_2_def FilterKind_defs)

subsection \<open>Strings are compared as strings\<close>

lemma str_lt_lexord: "str_lt a b \<longleftrightarrow> (a, b) \<in> lexord code_unit_less"
  by (induction a b rule: str_lt.induct) (auto simp: code_unit_less_def)

lemma str_lt_code_units: "str_lt a b \<longleftrightarrow> map of_char a < (map of_char b :: nat list)"
  by (induction a b rule: str_lt.induct) auto

lemma code_units_eq: "map of_char a = (map of_char b :: nat list) \<longleftrightarrow> a = b"
  by (simp add: inj_map_eq_map inj_on_def)

lemma order_prop_string:
  "fld \<noteq> F_chainId \<Longrightarrow> \<exists>s. order_prop fld ord = JStr s"
  by (cases fld) simp_all

text \<open>
  C1, as the code has it. Every field but \<open>chainId\<close> holds a string, also the amounts,
  fees, salt and expiration time. On such a field, with a string as the filter value, the
  compiled predicate compares the two strings: \<open>EQUAL\<close> and \<open>NOT_EQUAL\<close> by identity, the
  four ordering kinds lexicographically by code unit, whatever the length of the strings.
  On \<open>chainId\<close>, with a number as the filter value, it compares the two numbers.
\<close>

theorem filter_compares_strings_by_code_units:
  "(fld \<noteq> F_chainId \<longrightarrow>
     (\<exists>s. order_prop fld ord = JStr s \<and>
        filter_accepts stn \<lparr> filter_field = fld, filter_kind = FilterKind_Equal,
          filter_value = JStr v \<rparr> ord = (s = v) \<and>
        filter_accepts stn \<lparr> filter_field = fld, filter_kind = FilterKind_NotEqual,
          filter_value = JStr v \<rparr> ord = (s \<noteq> v) \<and>
        filter_accepts stn \<lparr> filter_field = fld, filter_kind = FilterKind_Greater,
          filter_value = JStr v \<rparr> ord = ((v, s) \<in> lexord code_unit_less) \<and>
        filter_accepts stn \<lparr> filter_field = fld, filter_kind = FilterKind_GreaterOrEqual,
          filter_value = JStr v \<rparr> ord = ((s, v) \<notin> lexord code_unit_less) \<and>
        filter_accepts stn \<lparr> filter_field = fld, filter_kind = FilterKind_Less,
          filter_value = JStr v \<rparr> ord = ((s, v) \<in> lexord code_unit_less) \<and>
        filter_accepts stn \<lparr> filter_field = fld, filter_kind = FilterKind_LessOrEqual,
          filter_value = JStr v \<rparr> ord = ((v, s) \<notin> lexord code_unit_less))) \<and>
   filter_accepts stn \<lparr> filter_field = F_chainId, filter_kind = FilterKind_Equal,
     filter_value = JNum n \<rparr> ord = (chainId ord = n) \<and>
   filter_accepts stn \<lparr> filter_field = F_chainId, filter_kind = FilterKind_NotEqual,
     filter_value = JNum n \<rparr> ord = (chainId ord \<noteq> n) \<and>
   filter_accepts stn \<lparr> filter_field = F_chainId, filter_kind = FilterKind_Greater,
     filter_value = JNum n \<rparr> ord = (chainId ord > n) \<and>
   filter_accepts stn \<lparr> filter_field = F_chainId, filter_kind = FilterKind_GreaterOrEqual,
     filter_value = JNum n \<rparr> ord = (chainId ord \<ge> n) \<and>
   filter_accepts stn \<lparr> filter_field = F_chainId, filter_kind = FilterKind_Less,
     filter_value = JNum n \<rparr> ord = (chainId ord < n) \<and>
   filter_accepts stn \<lparr> filter_field = F_chainId, filter_kind = FilterKind_LessOrEqual,
     filter_value = JNum n \<rparr> ord = (chainId ord \<le> n)"
proof -
  have str: "\<exists>s. order_prop fld ord = JStr s \<and>
        filter_accepts stn \<lparr> filter_field = fld, filter_kind = FilterKind_Equal,
          filter_value = JStr v \<rparr> ord = (s = v) \<and>
        filter_accepts stn \<lparr> filter_field = fld, filter_kind = FilterKind_NotEqual,
          filter_value = JStr v \<rparr> ord = (s \<noteq> v) \<and>
        filter_accepts stn \<lparr> filter_field = fld, filter_kind = FilterKind_Greater,
          filter_value = JStr v \<rparr> ord = ((v, s) \<in> lexord code_unit_less) \<and>
        filter_accepts stn \<lparr> filter_field = fld, filter_kind = FilterKind_GreaterOrEqual,
          filter_value = JStr v \<rparr> ord = ((s, v) \<notin> lexord code_unit_less) \<and>
        filter_accepts stn \<lparr> filter_field = fld, filter_kind = FilterKind_Less,
          filter_value = JStr v \<rparr> ord = ((s, v) \<in> lexord code_unit_less) \<and>
        filter_accepts stn \<lparr> filter_field = fld, filter_kind = FilterKind_LessOrEqual,
          filter_value = JStr v \<rparr> ord = ((v, s) \<notin> lexord code_unit_less)"
    if "fld \<noteq> F_chainId"
  proof -
    from order_prop_string [OF that] obtain s where s: "order_prop fld ord = JStr s" by blast
    show ?thesis
      by (rule exI [of _ s])
        (simp add: s filter_accepts_def compile_filter_def FilterKind_defs js_gt_def js_ge_def
          js_lt_def js_le_def str_lt_lexord)
  qed
  have num:
    "filter_accepts stn \<lparr> filter_field = F_chainId, filter_kind = FilterKind_Equal,
       filter_value = JNum n \<rparr> ord = (chainId ord = n)"
    "filter_accepts stn \<lparr> filter_field = F_chainId, filter_kind = FilterKind_NotEqual,
       filter_value = JNum n \<rparr> ord = (chainId ord \<noteq> n)"
    "filter_accepts stn \<lparr> filter_field = F_chainId, filter_kind = FilterKind_Greater,
       filter_value = JNum n \<rparr> ord = (chainId ord > n)"
    "filter_accepts stn \<lparr> filter_field = F_chainId, filter_kind = FilterKind_GreaterOrEqual,
       filter_value = JNum n \<rparr> ord = (chainId ord \<ge> n)"
    "filter_accepts stn \<lparr> filter_field = F_chainId, filter_kind = FilterKind_Less,
       filter_value = JNum n \<rparr> ord = (chainId ord < n)"
    "filter_accepts stn \<lparr> filter_field = F_chainId, filter_kind = FilterKind_LessOrEqual,
       filter_value = JNum n \<rparr> ord = (chainId ord \<le> n)"
    by (auto simp add: filter_accepts_def compile_filter_def FilterKind_defs js_gt_def js_ge_def
        js_lt_def js_le_def)
  from str num show ?thesis by blast
qed

text \<open>
  At the field \<open>makerAssetAmount\<close>, the value \<open>"9"\<close> and a record whose amount is \<open>"10"\<close>:
  \<open>"9"\<close> is not before \<open>"10"\<close> in the order of strings, and \<open>GREATER\<close> rejects the record.
\<close>

theorem filter_compares_strings_by_code_units_witness:
  "F_makerAssetAmount \<noteq> F_chainId \<and>
   makerAssetAmount order_amount_10 = ''10'' \<and>
   (''9'', ''10'') \<notin> lexord code_unit_less \<and>
   \<not> filter_accepts decimal_number
       \<lparr> filter_field = F_makerAssetAmount, filter_kind = FilterKind_Greater,
         filter_value = JStr ''9'' \<rparr> order_amount_10"
  using filter_compares_strings_by_code_units
    [where fld = F_makerAssetAmount and ord = order_amount_10 and stn = decimal_number
      and v = "''9''" and n = 1]
  by (simp add: order_amount_10_def code_unit_less_def)

text \<open>
  C1, as the claim has it, fails: a query for the orders whose \<open>makerAssetAmount\<close> is
  \<open>GREATER\<close> than \<open>"9"\<close> does not return the order whose amount is \<open>"10"\<close>, although
  ten is more than nine.
\<close>

theorem amount_10_not_greater_than_9:
  "makerAssetAmount order_amount_10 = ''10'' \<and>
   decimal_number ''10'' = Some 10 \<and> decimal_number ''9'' = Some 9 \<and>
   ordersResolver decimal_number [order_amount_10]
     \<lparr> args_sort = [],
       args_filters =
         [\<lparr> filter_field = F_makerAssetAmount, filter_kind = FilterKind_Greater,
            filter_value = JStr ''9'' \<rparr>],
       args_limit = 20 \<rparr> = Inr []"
  by (simp add: ordersResolver_def compile_filter_def FilterKind_defs js_gt_def
      order_amount_10_def R_take_def R_sortWith_def decimal_number_def)

section \<open>Malformed queries\<close>

text \<open>
  C7. A query with a filter whose kind is not a member of \<open>FilterKind\<close>, or with a sort
  option whose direction is not a member of \<open>SortDirection\<close>, throws: the resolver returns
  no list at all, and the message of the error ends with an offending value of the query
  (a kind, when a filter is malformed; otherwise a direction).
\<close>

theorem malformed_query_fails:
  assumes "\<not> list_all (\<lambda>f. filter_kind f \<in> FilterKind) (args_filters args) \<or>
     \<not> list_all (\<lambda>s. sort_direction s \<in> SortDirection) (args_sort args)"
  shows "\<exists>v.
     (v \<in> set (map filter_kind (args_filters args)) \<and> v \<notin> FilterKind \<and>
      ordersResolver stn store args = Inl (Error (''unexpected filter kind: '' @ v))) \<or>
     (v \<in> set (map sort_direction (args_sort args)) \<and> v \<notin> SortDirection \<and>
      ordersResolver stn store args = Inl (Error (''unexpected sort direction: '' @ v)))"
proof (cases "list_all (\<lambda>f. filter_kind f \<in> FilterKind) (args_filters args)")
  case False
  from compile_filters_invalid [OF this, of stn] obtain f where
    "f \<in> set (args_filters args)" "filter_kind f \<notin> FilterKind"
    "map_throwing (compile_filter stn) (args_filters args) =
       Inl (Error (''unexpected filter kind: '' @ filter_kind f))" by blast
  then show ?thesis
    by (intro exI [of _ "filter_kind f"]) (simp add: ordersResolver_def)
next
  case True
  then have fs: "map_throwing (compile_filter stn) (args_filters args) =
      Inr (map (filter_accepts stn) (args_filters args))"
    by (intro compile_filters_valid) (simp add: list_all_iff)
  from True assms have "\<not> list_all (\<lambda>s. sort_direction s \<in> SortDirection) (args_sort args)"
    by simp
  from compile_sorts_invalid [OF this, of stn] obtain s where
    "s \<in> set (args_sort args)" "sort_direction s \<notin> SortDirection"
    "map_throwing (compile_sort stn) (args_sort args) =
       Inl (Error (''unexpected sort direction: '' @ sort_direction s))" by blast
  then show ?thesis
    by (intro exI [of _ "sort_direction s"]) (simp add: ordersResolver_def fs)
qed

text \<open>A filter of kind \<open>BETWEEN\<close> makes the sample query throw.\<close>

theorem malformed_query_fails_witness:
  "\<not> list_all (\<lambda>f. filter_kind f \<in> FilterKind)
       [\<lparr> filter_field = F_salt, filter_kind = ''BETWEEN'', filter_value = JStr ''1'' \<rparr>] \<and>
   ordersResolver decimal_number sample_store
     \<lparr> args_sort = sample_sort,
       args_filters =
         [\<lparr> filter_field = F_salt, filter_kind = ''BETWEEN'', filter_value = JStr ''1'' \<rparr>],
       args_limit = 20 \<rparr> = Inl (Error ''unexpected filter kind: BETWEEN'')"
  using malformed_query_fails [of
      "\<lparr> args_sort = sample_sort,
         args_filters =
           [\<lparr> filter_field = F_salt, filter_kind = ''BETWEEN'', filter_value = JStr ''1'' \<rparr>],
         args_limit = 20 \<rparr>" decimal_number sample_store]
  by (simp add: FilterKind_def FilterKind_defs ordersResolver_def compile_filter_def)

section \<open>Sorting\<close>

subsection \<open>Consistent comparators\<close>

lemma consistentD1: "consistent c \<Longrightarrow> c b a = - c a b"
  unfolding consistent_def by blast

lemma consistentD2: "consistent c \<Longrightarrow> c a b = 0 \<Longrightarrow> c a x = c b x"
  unfolding consistent_def by blast

lemma consistentD3: "consistent c \<Longrightarrow> c a b < 0 \<Longrightarrow> c b x < 0 \<Longrightarrow> c a x < 0"
  unfolding consistent_def by blast

lemma consistent_trans:
  assumes c: "consistent c" and ab: "c a b \<le> 0" and bx: "c b x \<le> 0"
  shows "c a x \<le> 0"
proof (cases "c a b = 0")
  case True
  then show ?thesis using consistentD2 [OF c True, of x] bx by simp
next
  case False
  with ab have lt: "c a b < 0" by simp
  show ?thesis
  proof (cases "c b x = 0")
    case True
    then have "c x b = 0" using consistentD1 [OF c, of x b] by simp
    from consistentD2 [OF c this, of a] have "c x a = c b a" .
    then have "c a x = c a b"
      using consistentD1 [OF c, of a x] consistentD1 [OF c, of a b] by simp
    with lt show ?thesis by simp
  next
    case False
    with bx have "c b x < 0" by simp
    from consistentD3 [OF c lt this] show ?thesis by simp
  qed
qed

lemma consistent_three_way: "consistent (\<lambda>a b. three_way (k a) (k b))"
  unfolding consistent_def three_way_def by auto

lemma consistent_three_way_rev: "consistent (\<lambda>a b. three_way (k b) (k a))"
  unfolding consistent_def three_way_def by auto

lemma three_way_zero: "three_way x y = 0 \<longleftrightarrow> x = y"
  by (auto simp: three_way_def)

lemma consistent_Nil: "consistent (sortWith_compare [])"
  by (simp add: consistent_def)

lemma consistent_Cons:
  assumes f: "consistent f" and g: "consistent (sortWith_compare fs)"
  shows "consistent (sortWith_compare (f # fs))"
proof -
  let ?g = "sortWith_compare fs"
  have 1: "\<And>a b. sortWith_compare (f # fs) b a = - sortWith_compare (f # fs) a b"
  proof -
    fix a b
    show "sortWith_compare (f # fs) b a = - sortWith_compare (f # fs) a b"
      using consistentD1 [OF f, of b a] consistentD1 [OF g, of b a] by simp
  qed
  have 2: "\<And>a b x. sortWith_compare (f # fs) a b = 0 \<Longrightarrow>
      sortWith_compare (f # fs) a x = sortWith_compare (f # fs) b x"
  proof -
    fix a b x
    assume "sortWith_compare (f # fs) a b = 0"
    then have "f a b = 0" "?g a b = 0" by (simp_all split: if_splits)
    then have "f a x = f b x" "?g a x = ?g b x"
      using consistentD2 [OF f] consistentD2 [OF g] by blast+
    then show "sortWith_compare (f # fs) a x = sortWith_compare (f # fs) b x" by simp
  qed
  have 3: "\<And>a b x. sortWith_compare (f # fs) a b < 0 \<Longrightarrow>
      sortWith_compare (f # fs) b x < 0 \<Longrightarrow> sortWith_compare (f # fs) a x < 0"
  proof -
    fix a b x
    assume ab: "sortWith_compare (f # fs) a b < 0" and bx: "sortWith_compare (f # fs) b x < 0"
    show "sortWith_compare (f # fs) a x < 0"
    proof (cases "f a b = 0")
      case ab0: True
      then have eq: "f a x = f b x" using consistentD2 [OF f] by blast
      from ab0 ab have gab: "?g a b < 0" by simp
      show ?thesis
      proof (cases "f b x = 0")
        case True
        with bx have "?g b x < 0" by simp
        from consistentD3 [OF g gab this] True eq show ?thesis by simp
      next
        case False
        with bx eq show ?thesis by simp
      qed
    next
      case abn: False
      with ab have fab: "f a b < 0" by simp
      show ?thesis
      proof (cases "f b x = 0")
        case True
        then have "f x b = 0" using consistentD1 [OF f, of x b] by simp
        from consistentD2 [OF f this, of a] have "f x a = f b a" .
        then have "f a x = f a b"
          using consistentD1 [OF f, of a x] consistentD1 [OF f, of a b] by simp
        with fab show ?thesis by simp
      next
        case False
        with bx have "f b x < 0" by simp
        from consistentD3 [OF f fab this] show ?thesis by simp
      qed
    qed
  qed
  show ?thesis unfolding consistent_def using 1 2 3 by blast
qed

lemma consistent_sortWith_compare:
  "(\<forall>f\<in>set fs. consistent f) \<Longrightarrow> consistent (sortWith_compare fs)"
proof (induction fs)
  case Nil
  show ?case by (rule consistent_Nil)
next
  case (Cons f fs)
  then show ?case by (intro consistent_Cons) simp_all
qed

lemma sortWith_compare_first:
  "sortWith_compare (map (sort_compare stn) ss) a b =
     (case List.find (\<lambda>s. sort_compare stn s a b \<noteq> 0) ss of
        None \<Rightarrow> 0
      | Some s \<Rightarrow> sort_compare stn s a b)"
  by (induction ss) simp_all

subsection \<open>The comparator of one sort option\<close>

text \<open>
  The two values that a sort option compares are the same property of two orders, so
  both are strings or both are numbers, and \<open><\<close> of JavaScript orders them linearly.
\<close>

lemma js_less_strings: "js_less stn (JStr a) (JStr b) = Some (rank (JStr a) < rank (JStr b))"
  by (simp add: str_lt_code_units)

lemma js_less_numbers: "js_less stn (JNum m) (JNum n) = Some (rank (JNum m) < rank (JNum n))"
  by simp

lemma js_less_order_prop:
  "js_less stn (order_prop f a) (order_prop f b) =
     Some (rank (order_prop f a) < rank (order_prop f b))"
  by (cases f) (simp_all only: order_prop.simps js_less_strings js_less_numbers)

lemma rank_order_prop_eq:
  "rank (order_prop f a) = rank (order_prop f b) \<longleftrightarrow> order_prop f a = order_prop f b"
  by (cases f) (simp_all add: code_units_eq)

lemma sort_compare_Asc:
  "sort_direction s = SortDirection_Asc \<Longrightarrow>
   sort_compare stn s a b =
     three_way (rank (order_prop (sort_field s) a)) (rank (order_prop (sort_field s) b))"
  by (simp add: sort_compare_def compile_sort_def R_ascend_def js_lt_def js_gt_def
      js_less_order_prop three_way_def)

lemma sort_compare_Desc:
  "sort_direction s = SortDirection_Desc \<Longrightarrow>
   sort_compare stn s a b =
     three_way (rank (order_prop (sort_field s) b)) (rank (order_prop (sort_field s) a))"
  by (simp add: sort_compare_def compile_sort_def R_descend_def js_lt_def js_gt_def
      js_less_order_prop three_way_def SortDirection_defs)

lemma consistent_sort_compare:
  assumes "sort_direction s \<in> SortDirection"
  shows "consistent (sort_compare stn s)"
proof -
  from assms consider "sort_direction s = SortDirection_Asc"
    | "sort_direction s = SortDirection_Desc"
    by (auto simp: SortDirection_def)
  then show ?thesis
  proof cases
    case 1
    have "sort_compare stn s =
        (\<lambda>a b. three_way (rank (order_prop (sort_field s) a)) (rank (order_prop (sort_field s) b)))"
      by (simp add: fun_eq_iff sort_compare_Asc [OF 1])
    then show ?thesis by (simp only: consistent_three_way)
  next
    case 2
    have "sort_compare stn s =
        (\<lambda>a b. three_way (rank (order_prop (sort_field s) b)) (rank (order_prop (sort_field s) a)))"
      by (simp add: fun_eq_iff sort_compare_Desc [OF 2])
    then show ?thesis by (simp only: consistent_three_way_rev)
  qed
qed

lemma consistent_compiled:
  "\<forall>s\<in>set ss. sort_direction s \<in> SortDirection \<Longrightarrow>
   consistent (sortWith_compare (map (sort_compare stn) ss))"
  by (intro consistent_sortWith_compare) (simp add: consistent_sort_compare)

lemma sort_compare_zero:
  assumes "sort_direction s \<in> SortDirection"
  shows "sort_compare stn s a b = 0 \<longleftrightarrow>
     order_prop (sort_field s) a = order_prop (sort_field s) b"
proof -
  from assms consider "sort_direction s = SortDirection_Asc"
    | "sort_direction s = SortDirection_Desc"
    by (auto simp: SortDirection_def)
  then show ?thesis
  proof cases
    case 1
    show ?thesis
      by (simp add: sort_compare_Asc [OF 1] three_way_zero rank_order_prop_eq)
  next
    case 2
    show ?thesis
      using rank_order_prop_eq [of "sort_field s" b a]
      by (auto simp: sort_compare_Desc [OF 2] three_way_zero)
  qed
qed

lemma sort_compare_neg_Asc:
  assumes "sort_direction s = SortDirection_Asc"
  shows "sort_compare stn s a b < 0 \<longleftrightarrow>
     js_lt stn (order_prop (sort_field s) a) (order_prop (sort_field s) b)"
  by (simp add: sort_compare_Asc [OF assms] three_way_def js_lt_def js_less_order_prop)

lemma sort_compare_neg_Desc:
  assumes "sort_direction s = SortDirection_Desc"
  shows "sort_compare stn s a b < 0 \<longleftrightarrow>
     js_lt stn (order_prop (sort_field s) b) (order_prop (sort_field s) a)"
  by (simp add: sort_compare_Desc [OF assms] three_way_def js_lt_def js_less_order_prop)

lemma sort_compare_sign:
  assumes "sort_direction s \<in> SortDirection"
  shows "sort_compare stn s a b < 0 \<longleftrightarrow>
     (if sort_direction s = SortDirection_Asc
      then js_lt stn (order_prop (sort_field s) a) (order_prop (sort_field s) b)
      else js_lt stn (order_prop (sort_field s) b) (order_prop (sort_field s) a))"
proof (cases "sort_direction s = SortDirection_Asc")
  case True
  then show ?thesis by (simp add: sort_compare_neg_Asc)
next
  case False
  with assms have "sort_direction s = SortDirection_Desc" by (simp add: SortDirection_def)
  with False show ?thesis by (simp add: sort_compare_neg_Desc)
qed

lemma js_lt_strings: "js_lt stn (JStr x) (JStr y) \<longleftrightarrow> (x, y) \<in> lexord code_unit_less"
  by (simp add: js_lt_def str_lt_lexord)

lemma js_lt_numbers: "js_lt stn (JNum m) (JNum n) \<longleftrightarrow> m < n"
  by (simp add: js_lt_def)

lemma sort_compare_chainId:
  assumes "sort_direction s \<in> SortDirection" and "sort_field s = F_chainId"
  shows "sort_compare stn s a b < 0 \<longleftrightarrow>
     (if sort_direction s = SortDirection_Asc then chainId a < chainId b
      else chainId b < chainId a)"
  by (simp add: sort_compare_sign [OF assms(1)] assms(2) js_lt_numbers)

lemma sort_compare_string_field:
  assumes "sort_direction s \<in> SortDirection" and "sort_field s \<noteq> F_chainId"
  shows "\<exists>x y. order_prop (sort_field s) a = JStr x \<and> order_prop (sort_field s) b = JStr y \<and>
     (sort_compare stn s a b < 0 \<longleftrightarrow>
        (if sort_direction s = SortDirection_Asc then (x, y) \<in> lexord code_unit_less
         else (y, x) \<in> lexord code_unit_less))"
proof -
  from order_prop_string [OF assms(2)] obtain x where x: "order_prop (sort_field s) a = JStr x"
    by blast
  from order_prop_string [OF assms(2)] obtain y where y: "order_prop (sort_field s) b = JStr y"
    by blast
  have "sort_compare stn s a b < 0 \<longleftrightarrow>
        (if sort_direction s = SortDirection_Asc then (x, y) \<in> lexord code_unit_less
         else (y, x) \<in> lexord code_unit_less)"
    by (simp add: sort_compare_sign [OF assms(1)] x y js_lt_strings)
  with x y show ?thesis by blast
qed

subsection \<open>The stable insertion sort\<close>

lemma mset_insert_sorted: "mset (insert_sorted c x xs) = add_mset x (mset xs)"
  by (induction xs) simp_all

lemma mset_Array_sort: "mset (Array_sort c xs) = mset xs"
  by (induction xs) (simp_all add: mset_insert_sorted)

lemma mset_R_sortWith: "mset (R_sortWith fns xs) = mset xs"
  by (simp add: R_sortWith_def mset_Array_sort)

lemma set_insert_sorted: "set (insert_sorted c x xs) = insert x (set xs)"
  by (induction xs) auto

lemma sorted_insert_sorted:
  assumes c: "consistent c" and s: "sorted_wrt (\<lambda>a b. c a b \<le> 0) xs"
  shows "sorted_wrt (\<lambda>a b. c a b \<le> 0) (insert_sorted c x xs)"
  using s
proof (induction xs)
  case Nil
  show ?case by simp
next
  case (Cons y ys)
  show ?case
  proof (cases "c x y \<le> 0")
    case True
    have "\<forall>z\<in>set ys. c x z \<le> 0"
      using Cons.prems True consistent_trans [OF c] by auto
    with True Cons.prems show ?thesis by simp
  next
    case False
    then have "c y x \<le> 0" using consistentD1 [OF c, of x y] by simp
    with False Cons show ?thesis by (simp add: set_insert_sorted)
  qed
qed

lemma sorted_Array_sort:
  "consistent c \<Longrightarrow> sorted_wrt (\<lambda>a b. c a b \<le> 0) (Array_sort c xs)"
  by (induction xs) (simp_all add: sorted_insert_sorted)

lemma filter_insert_sorted:
  assumes c: "consistent c"
  shows "filter (\<lambda>x. c a x = 0) (insert_sorted c y xs) =
     (if c a y = 0 then y # filter (\<lambda>x. c a x = 0) xs else filter (\<lambda>x. c a x = 0) xs)"
proof (induction xs)
  case Nil
  show ?case by simp
next
  case (Cons z zs)
  show ?case
  proof (cases "c y z \<le> 0")
    case True
    then show ?thesis by simp
  next
    case False
    have "c a z \<noteq> 0" if "c a y = 0"
      using consistentD2 [OF c that, of z] False by simp
    with False Cons show ?thesis by simp
  qed
qed

lemma Array_sort_stable:
  "consistent c \<Longrightarrow> filter (\<lambda>x. c a x = 0) (Array_sort c xs) = filter (\<lambda>x. c a x = 0) xs"
  by (induction xs) (simp_all add: filter_insert_sorted)

lemma Array_sort_all_tie:
  assumes c: "consistent c" and tie: "\<forall>a\<in>set xs. \<forall>b\<in>set xs. c a b = 0"
  shows "Array_sort c xs = xs"
proof (cases xs)
  case Nil
  then show ?thesis by simp
next
  case (Cons a as)
  have "set (Array_sort c xs) = set xs"
    using mset_Array_sort [of c xs] by (metis set_mset_mset)
  with tie Cons have "filter (\<lambda>x. c a x = 0) (Array_sort c xs) = Array_sort c xs"
    by (intro filter_True) simp
  moreover from tie Cons have "filter (\<lambda>x. c a x = 0) xs = xs"
    by (intro filter_True) simp
  ultimately show ?thesis using Array_sort_stable [OF c, of a xs] by simp
qed

lemma sorted_wrt_R_take: "sorted_wrt P xs \<Longrightarrow> sorted_wrt P (R_take n xs)"
  by (simp add: R_take_def sorted_wrt_take)

lemma prefix_R_take: "prefix (R_take n xs) xs"
  by (simp add: R_take_def take_is_prefix)

subsection \<open>Sample queries, evaluated\<close>

lemma sorters_by_chain_then_fee:
  "map_throwing (compile_sort stn) sort_by_chain_then_fee =
     Inr [R_ascend stn (order_prop F_chainId), R_descend stn (order_prop F_makerFee)]"
  by (simp add: sort_by_chain_then_fee_def compile_sort_def SortDirection_defs)

lemma compare_by_chain_then_fee:
  "sortWith_compare [R_ascend stn (order_prop F_chainId), R_descend stn (order_prop F_makerFee)]
     mockOrder_1 mockOrder_2 = 1"
  by (simp add: R_ascend_def R_descend_def js_lt_def js_gt_def chainId_mockOrders
      makerFee_mockOrders)

lemma sorted_by_chain_then_fee:
  "R_sortWith [R_ascend stn (order_prop F_chainId), R_descend stn (order_prop F_makerFee)]
     [mockOrder_1, mockOrder_2] = [mockOrder_2, mockOrder_1]"
  by (simp only: R_sortWith_def Array_sort.simps insert_sorted.simps compare_by_chain_then_fee)
    simp

lemma sorters_by_chain:
  "map_throwing (compile_sort stn) sort_by_chain = Inr [R_ascend stn (order_prop F_chainId)]"
  by (simp add: sort_by_chain_def compile_sort_def SortDirection_defs)

lemma compare_by_chain:
  "sortWith_compare [R_ascend stn (order_prop F_chainId)] mockOrder_2 mockOrder_1 = 0"
  by (simp add: R_ascend_def js_lt_def js_gt_def chainId_mockOrders)

lemma sorted_by_chain:
  "R_sortWith [R_ascend stn (order_prop F_chainId)] [mockOrder_2, mockOrder_1] =
     [mockOrder_2, mockOrder_1]"
  by (simp only: R_sortWith_def Array_sort.simps insert_sorted.simps compare_by_chain) simp

lemma query_by_chain:
  "ordersResolver stn [mockOrder_2, mockOrder_1]
     \<lparr> args_sort = sort_by_chain, args_filters = [], args_limit = 20 \<rparr> =
     Inr [mockOrder_2, mockOrder_1]"
  by (simp add: ordersResolver_def sorters_by_chain sorted_by_chain R_take_def)

lemma sort_by_expiration_valid:
  "list_all (\<lambda>s. sort_direction s \<in> SortDirection) sort_by_expiration"
  by (simp add: sort_by_expiration_def SortDirection_members)

lemma sort_by_chain_then_expiration_valid:
  "list_all (\<lambda>s. sort_direction s \<in> SortDirection) sort_by_chain_then_expiration"
  by (simp add: sort_by_chain_then_expiration_def SortDirection_members)

lemma expirationTimeSeconds_mockOrders:
  "expirationTimeSeconds mockOrder_1 = ''1592663792''"
  "expirationTimeSeconds mockOrder_2 = ''1592208000000''"
  by (simp_all add: mockOrder_1_def mockOrder_2_def)

lemma expiration_string_order:
  "(''1592208000000'', ''1592663792'') \<in> lexord code_unit_less"
  by (simp add: code_unit_less_def)

lemma sorters_by_expiration:
  "map_throwing (compile_sort stn) sort_by_expiration =
     Inr [R_ascend stn (order_prop F_expirationTimeSeconds)]"
  by (simp add: sort_by_expiration_def compile_sort_def SortDirection_defs)

lemma sorters_by_chain_then_expiration:
  "map_throwing (compile_sort stn) sort_by_chain_then_expiration =
     Inr [R_ascend stn (order_prop F_chainId), R_ascend stn (order_prop F_expirationTimeSeconds)]"
  by (simp add: sort_by_chain_then_expiration_def compile_sort_def SortDirection_defs)

lemma compare_by_expiration:
  "sortWith_compare [R_ascend stn (order_prop F_expirationTimeSeconds)]
     mockOrder_1 mockOrder_2 = 1"
  by (simp add: R_ascend_def js_lt_def js_gt_def expirationTimeSeconds_mockOrders)

lemma compare_by_chain_then_expiration:
  "sortWith_compare
     [R_ascend stn (order_prop F_chainId), R_ascend stn (order_prop F_expirationTimeSeconds)]
     mockOrder_1 mockOrder_2 = 1"
  by (simp add: R_ascend_def js_lt_def js_gt_def chainId_mockOrders
      expirationTimeSeconds_mockOrders)

lemma sorted_by_expiration:
  "R_sortWith [R_ascend stn (order_prop F_expirationTimeSeconds)] [mockOrder_1, mockOrder_2] =
     [mockOrder_2, mockOrder_1]"
  by (simp only: R_sortWith_def Array_sort.simps insert_sorted.simps compare_by_expiration) simp

lemma sorted_by_chain_then_expiration:
  "R_sortWith
     [R_ascend stn (order_prop F_chainId), R_ascend stn (order_prop F_expirationTimeSeconds)]
     [mockOrder_1, mockOrder_2] = [mockOrder_2, mockOrder_1]"
  by (simp only: R_sortWith_def Array_sort.simps insert_sorted.simps
      compare_by_chain_then_expiration) simp

lemma query_by_expiration:
  "ordersResolver stn sample_store
     \<lparr> args_sort = sort_by_expiration, args_filters = [], args_limit = 20 \<rparr> =
     Inr [mockOrder_2, mockOrder_1]"
  by (simp add: ordersResolver_def sorters_by_expiration sample_store_def
      sorted_by_expiration R_take_def)

lemma query_by_chain_then_expiration:
  "ordersResolver stn sample_store
     \<lparr> args_sort = sort_by_chain_then_expiration, args_filters = [], args_limit = 20 \<rparr> =
     Inr [mockOrder_2, mockOrder_1]"
  by (simp add: ordersResolver_def sorters_by_chain_then_expiration sample_store_def
      sorted_by_chain_then_expiration R_take_def)

subsection \<open>Priority of the sort options\<close>

text \<open>
  C5, as the code has it. For a query whose filter kinds and sort directions are valid,
  the sort options compile to a comparator, and the result of the query is the matching
  records, each once, sorted under that comparator (no record comes after a record that
  the comparator puts after it) and cut at the limit. The comparator is decided by the
  first sort option, in the order given, under which the two records do not tie, and is
  \<open>0\<close> when they tie under all; it is antisymmetric and transitive, so it orders the
  records totally up to ties. One sort option ties two records exactly when they have the
  same value in its field. On \<open>chainId\<close>, a number, \<open>ASC\<close> puts the record with the
  smaller number first and \<open>DESC\<close> the one with the greater number. On every other
  field, a string (also the amounts, fees, salt and expiration time), \<open>ASC\<close> puts first
  the record whose string is before the other lexicographically by code unit, and \<open>DESC\<close>
  the record whose string is after: the strings are not compared as numbers.
\<close>

theorem sort_priority:
  assumes "list_all (\<lambda>f. filter_kind f \<in> FilterKind) (args_filters args)"
    and "list_all (\<lambda>s. sort_direction s \<in> SortDirection) (args_sort args)"
  shows "\<exists>sorters sorted rs.
     map_throwing (compile_sort stn) (args_sort args) = Inr sorters \<and>
     ordersResolver stn store args = Inr rs \<and>
     rs = R_take (args_limit args) sorted \<and>
     mset sorted =
       mset (filter (\<lambda>ord. list_all (\<lambda>f. filter_accepts stn f ord) (args_filters args)) store) \<and>
     sorted_wrt (\<lambda>a b. sortWith_compare sorters a b \<le> 0) sorted \<and>
     sorted_wrt (\<lambda>a b. sortWith_compare sorters a b \<le> 0) rs \<and>
     (\<forall>a b. sortWith_compare sorters a b =
        (case List.find (\<lambda>s. sort_compare stn s a b \<noteq> 0) (args_sort args) of
           None \<Rightarrow> 0
         | Some s \<Rightarrow> sort_compare stn s a b)) \<and>
     (\<forall>a b. sortWith_compare sorters b a = - sortWith_compare sorters a b) \<and>
     (\<forall>a b c. sortWith_compare sorters a b \<le> 0 \<longrightarrow> sortWith_compare sorters b c \<le> 0 \<longrightarrow>
        sortWith_compare sorters a c \<le> 0) \<and>
     list_all
       (\<lambda>s. \<forall>a b.
          (sort_compare stn s a b = 0 \<longleftrightarrow>
             order_prop (sort_field s) a = order_prop (sort_field s) b) \<and>
          (sort_compare stn s a b < 0 \<longleftrightarrow>
             (if sort_direction s = SortDirection_Asc
              then js_lt stn (order_prop (sort_field s) a) (order_prop (sort_field s) b)
              else js_lt stn (order_prop (sort_field s) b) (order_prop (sort_field s) a))) \<and>
          (sort_field s = F_chainId \<longrightarrow>
             (sort_compare stn s a b < 0 \<longleftrightarrow>
                (if sort_direction s = SortDirection_Asc then chainId a < chainId b
                 else chainId b < chainId a))) \<and>
          (sort_field s \<noteq> F_chainId \<longrightarrow>
             (\<exists>x y. order_prop (sort_field s) a = JStr x \<and>
                order_prop (sort_field s) b = JStr y \<and>
                (sort_compare stn s a b < 0 \<longleftrightarrow>
                   (if sort_direction s = SortDirection_Asc
                    then (x, y) \<in> lexord code_unit_less
                    else (y, x) \<in> lexord code_unit_less)))))
       (args_sort args)"
proof -
  let ?sorters = "map (sort_compare stn) (args_sort args)"
  let ?cmp = "sortWith_compare ?sorters"
  let ?matching = "filter (\<lambda>ord. list_all (\<lambda>f. filter_accepts stn f ord) (args_filters args)) store"
  let ?sorted = "R_sortWith ?sorters ?matching"
  let ?rs = "R_take (args_limit args) ?sorted"
  have valid: "\<forall>s\<in>set (args_sort args). sort_direction s \<in> SortDirection"
    using assms(2) by (simp add: list_all_iff)
  have c: "consistent ?cmp" by (rule consistent_compiled [OF valid])
  have 1: "map_throwing (compile_sort stn) (args_sort args) = Inr ?sorters"
    by (rule compile_sorts_valid [OF valid])
  have 2: "ordersResolver stn store args = Inr ?rs"
    by (rule ordersResolver_valid' [OF assms])
  have 3: "mset ?sorted = mset ?matching"
    by (rule mset_R_sortWith)
  have 4: "sorted_wrt (\<lambda>a b. ?cmp a b \<le> 0) ?sorted"
    unfolding R_sortWith_def by (intro sorted_Array_sort c)
  have 5: "sorted_wrt (\<lambda>a b. ?cmp a b \<le> 0) ?rs"
    by (intro sorted_wrt_R_take 4)
  have 6: "\<forall>a b. ?cmp a b =
        (case List.find (\<lambda>s. sort_compare stn s a b \<noteq> 0) (args_sort args) of
           None \<Rightarrow> 0
         | Some s \<Rightarrow> sort_compare stn s a b)"
    by (simp add: sortWith_compare_first)
  have 7: "\<forall>a b. ?cmp b a = - ?cmp a b"
    using consistentD1 [OF c] by blast
  have 8: "\<forall>a b c. ?cmp a b \<le> 0 \<longrightarrow> ?cmp b c \<le> 0 \<longrightarrow> ?cmp a c \<le> 0"
    using consistent_trans [OF c] by blast
  have 9: "list_all
       (\<lambda>s. \<forall>a b.
          (sort_compare stn s a b = 0 \<longleftrightarrow>
             order_prop (sort_field s) a = order_prop (sort_field s) b) \<and>
          (sort_compare stn s a b < 0 \<longleftrightarrow>
             (if sort_direction s = SortDirection_Asc
              then js_lt stn (order_prop (sort_field s) a) (order_prop (sort_field s) b)
              else js_lt stn (order_prop (sort_field s) b) (order_prop (sort_field s) a))) \<and>
          (sort_field s = F_chainId \<longrightarrow>
             (sort_compare stn s a b < 0 \<longleftrightarrow>
                (if sort_direction s = SortDirection_Asc then chainId a < chainId b
                 else chainId b < chainId a))) \<and>
          (sort_field s \<noteq> F_chainId \<longrightarrow>
             (\<exists>x y. order_prop (sort_field s) a = JStr x \<and>
                order_prop (sort_field s) b = JStr y \<and>
                (sort_compare stn s a b < 0 \<longleftrightarrow>
                   (if sort_direction s = SortDirection_Asc
                    then (x, y) \<in> lexord code_unit_less
                    else (y, x) \<in> lexord code_unit_less)))))
       (args_sort args)"
    unfolding list_all_iff
  proof (intro ballI allI conjI impI)
    fix s a b
    assume "s \<in> set (args_sort args)"
    with valid have s: "sort_direction s \<in> SortDirection" by simp
    show "sort_compare stn s a b = 0 \<longleftrightarrow>
        order_prop (sort_field s) a = order_prop (sort_field s) b"
      by (rule sort_compare_zero [OF s])
    show "sort_compare stn s a b < 0 \<longleftrightarrow>
        (if sort_direction s = SortDirection_Asc
         then js_lt stn (order_prop (sort_field s) a) (order_prop (sort_field s) b)
         else js_lt stn (order_prop (sort_field s) b) (order_prop (sort_field s) a))"
      by (rule sort_compare_sign [OF s])
    show "sort_compare stn s a b < 0 \<longleftrightarrow>
        (if sort_direction s = SortDirection_Asc then chainId a < chainId b
         else chainId b < chainId a)"
      if "sort_field s = F_chainId"
      by (rule sort_compare_chainId [OF s that])
    show "\<exists>x y. order_prop (sort_field s) a = JStr x \<and>
        order_prop (sort_field s) b = JStr y \<and>
        (sort_compare stn s a b < 0 \<longleftrightarrow>
           (if sort_direction s = SortDirection_Asc
            then (x, y) \<in> lexord code_unit_less
            else (y, x) \<in> lexord code_unit_less))"
      if "sort_field s \<noteq> F_chainId"
      by (rule sort_compare_string_field [OF s that])
  qed
  show ?thesis
    by (intro exI [of _ ?sorters] exI [of _ ?sorted] exI [of _ ?rs] conjI)
      (rule 1 2 refl 3 4 5 6 7 8 9)+
qed

text \<open>
  Sorting the sample store by \<open>chainId\<close> ascending, then by \<open>expirationTimeSeconds\<close>
  ascending: the two records tie on the chain id, and the one whose expiration time is
  the earlier string comes first.
\<close>

theorem sort_priority_witness:
  "list_all (\<lambda>s. sort_direction s \<in> SortDirection) sort_by_chain_then_expiration \<and>
   chainId mockOrder_1 = chainId mockOrder_2 \<and>
   expirationTimeSeconds mockOrder_2 = ''1592208000000'' \<and>
   expirationTimeSeconds mockOrder_1 = ''1592663792'' \<and>
   (''1592208000000'', ''1592663792'') \<in> lexord code_unit_less \<and>
   ordersResolver decimal_number sample_store
     \<lparr> args_sort = sort_by_chain_then_expiration, args_filters = [], args_limit = 20 \<rparr> =
     Inr [mockOrder_2, mockOrder_1] \<and>
   (\<exists>sorters.
      map_throwing (compile_sort decimal_number) sort_by_chain_then_expiration = Inr sorters \<and>
      sorted_wrt (\<lambda>a b. sortWith_compare sorters a b \<le> 0) [mockOrder_2, mockOrder_1])"
proof -
  have h1: "list_all (\<lambda>f. filter_kind f \<in> FilterKind)
      (args_filters
        \<lparr> args_sort = sort_by_chain_then_expiration, args_filters = [], args_limit = 20 \<rparr>)"
    by simp
  have h2: "list_all (\<lambda>s. sort_direction s \<in> SortDirection)
      (args_sort
        \<lparr> args_sort = sort_by_chain_then_expiration, args_filters = [], args_limit = 20 \<rparr>)"
    by (simp add: sort_by_chain_then_expiration_valid)
  note th = sort_priority [OF h1 h2, where stn = decimal_number and store = sample_store,
      unfolded OrdersArgs.select_convs query_by_chain_then_expiration]
  from th obtain sorters rs where
    s: "map_throwing (compile_sort decimal_number) sort_by_chain_then_expiration = Inr sorters"
    and r: "Inr [mockOrder_2, mockOrder_1] = (Inr rs :: error + OrderWithMetadata list)"
    and o: "sorted_wrt (\<lambda>a b. sortWith_compare sorters a b \<le> 0) rs"
    by (elim exE conjE)
  from r o have "sorted_wrt (\<lambda>a b. sortWith_compare sorters a b \<le> 0) [mockOrder_2, mockOrder_1]"
    by simp
  with s have ex: "\<exists>sorters.
      map_throwing (compile_sort decimal_number) sort_by_chain_then_expiration = Inr sorters \<and>
      sorted_wrt (\<lambda>a b. sortWith_compare sorters a b \<le> 0) [mockOrder_2, mockOrder_1]"
    by blast
  have ch: "chainId mockOrder_1 = chainId mockOrder_2"
    by (simp add: chainId_mockOrders)
  show ?thesis
    by (intro conjI)
      (rule sort_by_chain_then_expiration_valid ch expirationTimeSeconds_mockOrders
        expiration_string_order query_by_chain_then_expiration ex)+
qed

text \<open>
  C5, as the claim has it, fails where ascending is the order of the numbers: sorted by
  \<open>expirationTimeSeconds\<close> ascending, the record that expires at 1592208000000 comes
  before the record that expires at 1592663792.
\<close>

theorem expiration_sorted_as_strings:
  "expirationTimeSeconds mockOrder_2 = ''1592208000000'' \<and>
   expirationTimeSeconds mockOrder_1 = ''1592663792'' \<and>
   decimal_number ''1592208000000'' = Some 1592208000000 \<and>
   decimal_number ''1592663792'' = Some 1592663792 \<and>
   (1592663792 :: int) < 1592208000000 \<and>
   ordersResolver decimal_number sample_store
     \<lparr> args_sort = sort_by_expiration, args_filters = [], args_limit = 20 \<rparr> =
     Inr [mockOrder_2, mockOrder_1]"
  by (simp add: expirationTimeSeconds_mockOrders decimal_number_def query_by_expiration)

subsection \<open>Stability\<close>

text \<open>
  C6. For a query whose filter kinds and sort directions are valid, the records of the
  result that tie with any given record under the compiled comparator are an initial
  part of the records of the store that match the filters and tie with it, in the order
  of the store. When there is no sort option, or all the records of the store tie, the
  result is the matching records in the order of the store, cut at the limit.
\<close>

theorem sort_is_stable:
  assumes "list_all (\<lambda>f. filter_kind f \<in> FilterKind) (args_filters args)"
    and "list_all (\<lambda>s. sort_direction s \<in> SortDirection) (args_sort args)"
  shows "\<exists>sorters rs.
     map_throwing (compile_sort stn) (args_sort args) = Inr sorters \<and>
     ordersResolver stn store args = Inr rs \<and>
     (\<forall>a. prefix (filter (\<lambda>x. sortWith_compare sorters a x = 0) rs)
        (filter (\<lambda>x. sortWith_compare sorters a x = 0)
          (filter (\<lambda>ord. list_all (\<lambda>f. filter_accepts stn f ord) (args_filters args)) store))) \<and>
     (args_sort args = [] \<or>
      (\<forall>a\<in>set store. \<forall>b\<in>set store. sortWith_compare sorters a b = 0) \<longrightarrow>
        rs = R_take (args_limit args)
          (filter (\<lambda>ord. list_all (\<lambda>f. filter_accepts stn f ord) (args_filters args)) store))"
proof -
  let ?sorters = "map (sort_compare stn) (args_sort args)"
  let ?cmp = "sortWith_compare ?sorters"
  let ?matching = "filter (\<lambda>ord. list_all (\<lambda>f. filter_accepts stn f ord) (args_filters args)) store"
  let ?rs = "R_take (args_limit args) (R_sortWith ?sorters ?matching)"
  have valid: "\<forall>s\<in>set (args_sort args). sort_direction s \<in> SortDirection"
    using assms(2) by (simp add: list_all_iff)
  have c: "consistent ?cmp" by (rule consistent_compiled [OF valid])
  have 1: "map_throwing (compile_sort stn) (args_sort args) = Inr ?sorters"
    by (rule compile_sorts_valid [OF valid])
  have 2: "ordersResolver stn store args = Inr ?rs"
    by (rule ordersResolver_valid' [OF assms])
  have 3: "prefix (filter (\<lambda>x. ?cmp a x = 0) ?rs) (filter (\<lambda>x. ?cmp a x = 0) ?matching)" for a
  proof -
    have "prefix (filter (\<lambda>x. ?cmp a x = 0) ?rs)
        (filter (\<lambda>x. ?cmp a x = 0) (R_sortWith ?sorters ?matching))"
      by (intro filter_mono_prefix prefix_R_take)
    then show ?thesis
      by (simp only: R_sortWith_def Array_sort_stable [OF c])
  qed
  have 4: "?rs = R_take (args_limit args) ?matching"
    if "args_sort args = [] \<or> (\<forall>a\<in>set store. \<forall>b\<in>set store. ?cmp a b = 0)"
  proof -
    from that have "\<forall>a\<in>set ?matching. \<forall>b\<in>set ?matching. ?cmp a b = 0"
      by auto
    from Array_sort_all_tie [OF c this] show ?thesis
      by (simp add: R_sortWith_def)
  qed
  from 1 2 3 4 show ?thesis by blast
qed

text \<open>
  The two sample records, stored in the order second, first, and sorted by \<open>chainId\<close>,
  on which they tie, come back in the order of the store.
\<close>

theorem sort_is_stable_witness:
  "list_all (\<lambda>s. sort_direction s \<in> SortDirection) sort_by_chain \<and>
   ordersResolver decimal_number [mockOrder_2, mockOrder_1]
     \<lparr> args_sort = sort_by_chain, args_filters = [], args_limit = 20 \<rparr> =
     Inr [mockOrder_2, mockOrder_1]"
  using sort_is_stable [where stn = decimal_number and store = "[mockOrder_2, mockOrder_1]"
      and args = "\<lparr> args_sort = sort_by_chain, args_filters = [], args_limit = 20 \<rparr>"]
  by (simp add: sort_by_chain_valid query_by_chain)

section \<open>The conjunction of the filters\<close>

lemma set_R_sortWith: "set (R_sortWith fns xs) = set xs"
  using mset_R_sortWith [of fns xs] by (metis set_mset_mset)

lemma length_R_sortWith: "length (R_sortWith fns xs) = length xs"
  using mset_R_sortWith [of fns xs] by (metis size_mset)

lemma set_R_take: "set (R_take n xs) \<subseteq> set xs"
  by (auto simp: R_take_def dest: in_set_takeD)

lemma R_take_all: "n < 0 \<or> int (length xs) \<le> n \<Longrightarrow> R_take n xs = xs"
  by (auto simp: R_take_def)

lemma sample_matching:
  "filter (\<lambda>ord. list_all (\<lambda>f. filter_accepts decimal_number f ord) sample_filters) sample_store =
     [mockOrder_1]"
  using accepts_amount_greater_5 accepts_chainId_1 rejects_amount_greater_5
  by (simp add: sample_filters_def sample_store_def)

lemma R_sortWith_single: "R_sortWith fns [x] = [x]"
  by (simp add: R_sortWith_def)

lemma sample_query:
  "ordersResolver decimal_number sample_store
     \<lparr> args_sort = sample_sort, args_filters = sample_filters, args_limit = 20 \<rparr> =
     Inr [mockOrder_1]"
  by (subst ordersResolver_valid')
    (simp_all add: sample_filters_valid sample_sort_valid sample_matching R_sortWith_single
      R_take_def)

text \<open>
  C4. For every query whose filter kinds and sort directions are valid, the filters
  compile to the predicates of the single filters, and the combined predicate
  \<open>R.allPass(filters)\<close> accepts an order if and only if the predicate of every single
  filter accepts it. The query applies that predicate to the store: every record that it
  returns is a record of the store that every filter accepts, and when the limit does not
  cut the result (it is negative, or at least the size of the store) the result is
  exactly the records of the store that every filter accepts, each once. For the empty
  list of filters the predicate accepts every order, and the result is then the whole
  store, each record once.
\<close>

theorem filters_conjunction:
  assumes "list_all (\<lambda>f. filter_kind f \<in> FilterKind) (args_filters args)"
    and "list_all (\<lambda>s. sort_direction s \<in> SortDirection) (args_sort args)"
  shows "\<exists>filters rs.
     map_throwing (compile_filter stn) (args_filters args) = Inr filters \<and>
     filters = map (filter_accepts stn) (args_filters args) \<and>
     (\<forall>ord. R_allPass filters ord =
        list_all (\<lambda>f. filter_accepts stn f ord) (args_filters args)) \<and>
     R_filter (R_allPass filters) store =
       filter (\<lambda>ord. list_all (\<lambda>f. filter_accepts stn f ord) (args_filters args)) store \<and>
     ordersResolver stn store args = Inr rs \<and>
     (\<forall>ord. ord \<in> set rs \<longrightarrow>
        ord \<in> set store \<and> list_all (\<lambda>f. filter_accepts stn f ord) (args_filters args)) \<and>
     (args_limit args < 0 \<or> int (length store) \<le> args_limit args \<longrightarrow>
        mset rs =
          mset (filter (\<lambda>ord. list_all (\<lambda>f. filter_accepts stn f ord) (args_filters args))
                  store)) \<and>
     (args_filters args = [] \<longrightarrow>
        (\<forall>ord. R_allPass filters ord) \<and>
        (args_limit args < 0 \<or> int (length store) \<le> args_limit args \<longrightarrow>
           mset rs = mset store))"
proof -
  let ?fs = "args_filters args"
  let ?filters = "map (filter_accepts stn) ?fs"
  let ?matching = "filter (\<lambda>ord. list_all (\<lambda>f. filter_accepts stn f ord) ?fs) store"
  let ?sorted = "R_sortWith (map (sort_compare stn) (args_sort args)) ?matching"
  let ?rs = "R_take (args_limit args) ?sorted"
  have valid: "\<forall>f\<in>set ?fs. filter_kind f \<in> FilterKind"
    using assms(1) by (simp add: list_all_iff)
  have 1: "map_throwing (compile_filter stn) ?fs = Inr ?filters"
    by (rule compile_filters_valid [OF valid])
  have 2: "\<forall>ord. R_allPass ?filters ord = list_all (\<lambda>f. filter_accepts stn f ord) ?fs"
    by (simp add: R_allPass_map list_all_iff)
  have 3: "R_filter (R_allPass ?filters) store = ?matching"
    by (simp add: R_allPass_map R_filter_eq list_all_iff)
  have 4: "ordersResolver stn store args = Inr ?rs"
    by (rule ordersResolver_valid' [OF assms])
  have 5: "\<forall>ord. ord \<in> set ?rs \<longrightarrow>
      ord \<in> set store \<and> list_all (\<lambda>f. filter_accepts stn f ord) ?fs"
  proof (intro allI impI)
    fix ord
    assume "ord \<in> set ?rs"
    then have "ord \<in> set ?sorted" by (rule subsetD [OF set_R_take])
    then have "ord \<in> set ?matching" by (simp only: set_R_sortWith)
    then show "ord \<in> set store \<and> list_all (\<lambda>f. filter_accepts stn f ord) ?fs" by simp
  qed
  have 6: "args_limit args < 0 \<or> int (length store) \<le> args_limit args \<longrightarrow>
      mset ?rs = mset ?matching"
  proof
    assume that: "args_limit args < 0 \<or> int (length store) \<le> args_limit args"
    have "length ?sorted \<le> length store"
      by (simp add: length_R_sortWith)
    with that have "args_limit args < 0 \<or> int (length ?sorted) \<le> args_limit args"
      by linarith
    then have "?rs = ?sorted" by (rule R_take_all)
    then show "mset ?rs = mset ?matching" by (simp add: mset_R_sortWith)
  qed
  have 7: "?fs = [] \<longrightarrow>
      (\<forall>ord. R_allPass ?filters ord) \<and>
      (args_limit args < 0 \<or> int (length store) \<le> args_limit args \<longrightarrow> mset ?rs = mset store)"
  proof
    assume "?fs = []"
    then show "(\<forall>ord. R_allPass ?filters ord) \<and>
      (args_limit args < 0 \<or> int (length store) \<le> args_limit args \<longrightarrow> mset ?rs = mset store)"
      using 6 by simp
  qed
  show ?thesis
    by (intro exI [of _ ?filters] exI [of _ ?rs] conjI) (rule 1 refl 2 3 4 5 6 7)+
qed

text \<open>
  The sample query (maker asset amount greater than \<open>"5"\<close>, chain id equal to \<open>1\<close>) on
  the sample store: the combined predicate accepts the first record and not the second,
  and the query returns the first record only.
\<close>

theorem filters_conjunction_witness:
  "list_all (\<lambda>f. filter_kind f \<in> FilterKind) sample_filters \<and>
   list_all (\<lambda>s. sort_direction s \<in> SortDirection) sample_sort \<and>
   ordersResolver decimal_number sample_store
     \<lparr> args_sort = sample_sort, args_filters = sample_filters, args_limit = 20 \<rparr> =
     Inr [mockOrder_1] \<and>
   (\<exists>filters. map_throwing (compile_filter decimal_number) sample_filters = Inr filters \<and>
      R_allPass filters mockOrder_1 \<and> \<not> R_allPass filters mockOrder_2)"
proof -
  have h1: "list_all (\<lambda>f. filter_kind f \<in> FilterKind)
      (args_filters \<lparr> args_sort = sample_sort, args_filters = sample_filters, args_limit = 20 \<rparr>)"
    by (simp add: sample_filters_valid)
  have h2: "list_all (\<lambda>s. sort_direction s \<in> SortDirection)
      (args_sort \<lparr> args_sort = sample_sort, args_filters = sample_filters, args_limit = 20 \<rparr>)"
    by (simp add: sample_sort_valid)
  note th = filters_conjunction [OF h1 h2, where stn = decimal_number
      and store = sample_store, unfolded OrdersArgs.select_convs]
  from th obtain filters where
    f: "map_throwing (compile_filter decimal_number) sample_filters = Inr filters"
    and a: "\<forall>ord. R_allPass filters ord =
        list_all (\<lambda>f. filter_accepts decimal_number f ord) sample_filters"
    by (elim exE conjE)
  have "R_allPass filters mockOrder_1"
    using a accepts_amount_greater_5 accepts_chainId_1 by (simp add: sample_filters_def)
  moreover have "\<not> R_allPass filters mockOrder_2"
    using a rejects_amount_greater_5 by (simp add: sample_filters_def)
  ultimately show ?thesis
    using f by (simp add: sample_filters_valid sample_sort_valid sample_query)
qed

section \<open>The limit\<close>

text \<open>
  C2, as the code has it. For a query whose filter kinds and sort directions are valid:
  with limit \<open>0\<close> the result is empty; with a limit that is not negative the result is
  the first \<open>limit\<close> records of the sorted matching records; with a limit of at least the
  number of matching records the result is all of them, sorted, each once; and with a
  negative limit the result is all of them too.
\<close>

theorem limit_boundaries:
  assumes "list_all (\<lambda>f. filter_kind f \<in> FilterKind) (args_filters args)"
    and "list_all (\<lambda>s. sort_direction s \<in> SortDirection) (args_sort args)"
  shows "\<exists>sorted.
     sorted = R_sortWith (map (sort_compare stn) (args_sort args))
       (filter (\<lambda>ord. list_all (\<lambda>f. filter_accepts stn f ord) (args_filters args)) store) \<and>
     mset sorted =
       mset (filter (\<lambda>ord. list_all (\<lambda>f. filter_accepts stn f ord) (args_filters args)) store) \<and>
     (args_limit args = 0 \<longrightarrow> ordersResolver stn store args = Inr []) \<and>
     (0 \<le> args_limit args \<longrightarrow>
        ordersResolver stn store args = Inr (take (nat (args_limit args)) sorted)) \<and>
     (int (length sorted) \<le> args_limit args \<longrightarrow> ordersResolver stn store args = Inr sorted) \<and>
     (args_limit args < 0 \<longrightarrow> ordersResolver stn store args = Inr sorted)"
  by (simp add: ordersResolver_valid' [OF assms] R_take_def mset_R_sortWith)

text \<open>The sample query with limit \<open>0\<close> returns the empty list.\<close>

theorem limit_boundaries_witness:
  "list_all (\<lambda>f. filter_kind f \<in> FilterKind) sample_filters \<and>
   list_all (\<lambda>s. sort_direction s \<in> SortDirection) sample_sort \<and>
   ordersResolver decimal_number sample_store
     \<lparr> args_sort = sample_sort, args_filters = sample_filters, args_limit = 0 \<rparr> = Inr []"
  using limit_boundaries [of "\<lparr> args_sort = sample_sort, args_filters = sample_filters, args_limit = 0 \<rparr>"
      decimal_number sample_store]
  by (simp add: sample_filters_valid sample_sort_valid)

text \<open>
  C2, as the claim has it, fails for a negative limit: with limit \<open>-1\<close> and no filter
  the query returns both records of the store, not the empty list.
\<close>

theorem negative_limit_returns_everything:
  "ordersResolver decimal_number [mockOrder_1, mockOrder_2]
     \<lparr> args_sort = [], args_filters = [], args_limit = - 1 \<rparr> = Inr [mockOrder_1, mockOrder_2]"
  by (simp add: ordersResolver_def R_take_def R_sortWith_def)

section \<open>Lookup by hash\<close>

text \<open>
  C8. \<open>order(hash)\<close> returns \<open>undefined\<close>, without an error, exactly when no record of the
  store has that hash; otherwise it returns a record of the store with that hash, which
  is the only such record when the hashes of the store are distinct. For two different
  hashes it never returns the same record.
\<close>

theorem lookup_by_hash:
  "(case orderResolver store h of
      None \<Rightarrow> h \<notin> set (map hash store)
    | Some ord \<Rightarrow>
        ord \<in> set store \<and> hash ord = h \<and>
        (distinct (map hash store) \<longrightarrow> (\<forall>ord'\<in>set store. hash ord' = h \<longrightarrow> ord' = ord))) \<and>
   (\<forall>h' a b. h \<noteq> h' \<longrightarrow> orderResolver store h = Some a \<longrightarrow> orderResolver store h' = Some b \<longrightarrow>
      a \<noteq> b)"
proof -
  have 1: "h \<notin> set (map hash store)" if "orderResolver store h = None"
    using that by (auto simp: orderResolver_def R_find_None)
  have 2: "ord \<in> set store \<and> hash ord = h" if "orderResolver store h = Some ord" for ord h
    using R_find_Some [of "\<lambda>ord. hash ord = h" store ord] that by (simp add: orderResolver_def)
  have 3: "ord' = ord"
    if "orderResolver store h = Some ord" "distinct (map hash store)" "ord' \<in> set store"
      "hash ord' = h" for ord ord'
  proof -
    from 2 [OF that(1)] have "ord \<in> set store" "hash ord = h" by simp_all
    with that(2-4) show ?thesis
      by (metis distinct_map inj_on_def)
  qed
  have 4: "a \<noteq> b" if "h \<noteq> h'" "orderResolver store h = Some a" "orderResolver store h' = Some b"
    for h' a b
    using 2 [OF that(2)] 2 [OF that(3)] that(1) by auto
  show ?thesis
    using 1 2 3 4 by (auto split: option.splits)
qed

text \<open>
  In the sample store, whose hashes are distinct, the hash of the second record finds
  the second record, and a hash that no record has finds nothing.
\<close>

theorem lookup_by_hash_witness:
  "distinct (map hash sample_store) \<and>
   orderResolver sample_store
     ''0x1c4277bd277bab56cece52d53533361fc5b90428bddfc52eac2c32f6881ba08d'' = Some mockOrder_2 \<and>
   orderResolver sample_store ''0xdoesnotexist'' = None"
  using lookup_by_hash [where store = sample_store
      and h = "''0x1c4277bd277bab56cece52d53533361fc5b90428bddfc52eac2c32f6881ba08d''"]
  by (simp add: sample_store_def orderResolver_def hash_mockOrder_1 hash_mockOrder_2)

section \<open>The store is only read\<close>

lemma ordersResolver_heap_Inr:
  assumes "map_throwing (compile_filter stn) (args_filters args) = Inr filters"
    and "map_throwing (compile_sort stn) (args_sort args) = Inr sorters"
  shows "ordersResolver_heap stn m args h =
     (Inr (length h + 2),
      h @ [R_filter (R_allPass filters) (h ! m),
           R_sortWith sorters (R_filter (R_allPass filters) (h ! m)),
           R_take (args_limit args) (R_sortWith sorters (R_filter (R_allPass filters) (h ! m)))])"
  by (simp add: ordersResolver_heap_def assms R_filter_heap_def R_sortWith_heap_def
      R_take_heap_def alloc_def R_sortWith_def nth_append list_update_append)

lemma heap_lookup_missing:
  "orderResolver_heap 0 ''0xdoesnotexist'' [sample_store] = (None, [sample_store])"
  by (simp add: orderResolver_heap_def sample_store_def hash_mockOrder_1 hash_mockOrder_2)

lemma heap_query_by_chain_then_fee:
  "ordersResolver_heap stn 0
     \<lparr> args_sort = sort_by_chain_then_fee, args_filters = [], args_limit = 1 \<rparr> [sample_store] =
     (Inr 3,
      [sample_store, [mockOrder_1, mockOrder_2], [mockOrder_2, mockOrder_1], [mockOrder_2]])"
  by (subst ordersResolver_heap_Inr [where filters = "[]"
        and sorters = "[R_ascend stn (order_prop F_chainId), R_descend stn (order_prop F_makerFee)]"])
    (simp_all add: sorters_by_chain_then_fee sample_store_def sorted_by_chain_then_fee R_take_def)

text \<open>
  C9. With \<open>mockOrders\<close> an array of the heap: a lookup by hash returns what it finds in
  that array and leaves the heap as it was. A list query leaves every array that was on
  the heap as it was, the store among them, in content and in order; if it throws it
  leaves the whole heap as it was; if it returns, what it returns is an array that was
  not on the heap before, so not the store, and that holds the result of the query.
\<close>

theorem queries_leave_store_unchanged:
  assumes "mockOrders < length h"
  shows "orderResolver_heap mockOrders h0 h = (orderResolver (h ! mockOrders) h0, h) \<and>
     (\<exists>res h'. ordersResolver_heap stn mockOrders args h = (res, h') \<and>
        take (length h) h' = h \<and>
        h' ! mockOrders = h ! mockOrders \<and>
        (case res of
           Inl e \<Rightarrow> h' = h \<and> ordersResolver stn (h ! mockOrders) args = Inl e
         | Inr r \<Rightarrow>
             length h \<le> r \<and> r < length h' \<and> r \<noteq> mockOrders \<and>
             ordersResolver stn (h ! mockOrders) args = Inr (h' ! r)))"
proof -
  have 1: "orderResolver_heap mockOrders h0 h = (orderResolver (h ! mockOrders) h0, h)"
    by (simp add: orderResolver_heap_def orderResolver_def)
  have 2: "\<exists>res h'. ordersResolver_heap stn mockOrders args h = (res, h') \<and>
        take (length h) h' = h \<and>
        h' ! mockOrders = h ! mockOrders \<and>
        (case res of
           Inl e \<Rightarrow> h' = h \<and> ordersResolver stn (h ! mockOrders) args = Inl e
         | Inr r \<Rightarrow>
             length h \<le> r \<and> r < length h' \<and> r \<noteq> mockOrders \<and>
             ordersResolver stn (h ! mockOrders) args = Inr (h' ! r))"
  proof (cases "map_throwing (compile_filter stn) (args_filters args)")
    case (Inl e)
    then show ?thesis by (simp add: ordersResolver_heap_def ordersResolver_def)
  next
    case fs: (Inr filters)
    show ?thesis
    proof (cases "map_throwing (compile_sort stn) (args_sort args)")
      case (Inl e)
      with fs show ?thesis by (simp add: ordersResolver_heap_def ordersResolver_def)
    next
      case (Inr sorters)
      with fs assms show ?thesis
        by (simp add: ordersResolver_heap_def ordersResolver_def R_filter_heap_def
            R_sortWith_heap_def R_take_heap_def alloc_def R_sortWith_def nth_append
            list_update_append)
    qed
  qed
  from 1 2 show ?thesis by blast
qed

text \<open>
  On a heap that holds the sample store only, the lookup of a missing hash changes
  nothing, and the list query sorted by \<open>chainId\<close> and \<open>makerFee\<close> with limit \<open>1\<close> adds
  three arrays (the filtered, the sorted and the truncated list) after the store.
\<close>

theorem queries_leave_store_unchanged_witness:
  "(0::nat) < length [sample_store] \<and>
   orderResolver_heap 0 ''0xdoesnotexist'' [sample_store] = (None, [sample_store]) \<and>
   ordersResolver_heap decimal_number 0
     \<lparr> args_sort = sort_by_chain_then_fee, args_filters = [], args_limit = 1 \<rparr> [sample_store] =
     (Inr 3,
      [sample_store, [mockOrder_1, mockOrder_2], [mockOrder_2, mockOrder_1], [mockOrder_2]])"
  using queries_leave_store_unchanged [where mockOrders = 0 and h = "[sample_store]"
      and stn = decimal_number and ?h0.0 = "''0xdoesnotexist''"
      and args = "\<lparr> args_sort = sort_by_chain_then_fee, args_filters = [], args_limit = 1 \<rparr>"]
  by (simp add: heap_query_by_chain_then_fee heap_lookup_missing)

section \<open>Submitting orders\<close>

lemma splitEvery_loop_Nil: "splitEvery_loop n [] = []"
  by (simp add: splitEvery_loop.simps)

lemma splitEvery_loop_one: "splitEvery_loop (Suc 0) xs = map (\<lambda>x. [x]) xs"
proof (induction xs)
  case Nil
  show ?case by (simp add: splitEvery_loop_Nil)
next
  case (Cons x xs)
  then show ?case by (subst splitEvery_loop.simps) simp
qed

lemma addOrdersResolver_eq:
  "addOrdersResolver orders =
     Inr \<lparr> accepted = map accept_order (take 1 orders),
           rejected = map reject_order (take 1 (drop 1 orders)) \<rparr>"
proof (cases orders)
  case Nil
  then show ?thesis
    by (simp add: addOrdersResolver_def R_splitEvery_def splitEvery_loop_one)
next
  case (Cons x xs)
  then show ?thesis
    by (cases xs) (simp_all add: addOrdersResolver_def R_splitEvery_def splitEvery_loop_one)
qed

lemma truncate_accept_order: "Order.truncate (accepted_order (accept_order ord)) = ord"
  by (simp add: accept_order_def Order.truncate_def Order.extend_def)

lemma rejected_order_reject_order: "rejected_order (reject_order ord) = ord"
  by (simp add: reject_order_def)

text \<open>
  C10. \<open>addOrders\<close> on the empty list returns empty \<open>accepted\<close> and \<open>rejected\<close> lists
  and does not throw; on a list of one order it returns that order in \<open>accepted\<close>, with
  \<open>isNew\<close> true, and an empty \<open>rejected\<close> list.
\<close>

theorem addOrders_empty_and_single:
  "addOrdersResolver [] = Inr \<lparr> accepted = [], rejected = [] \<rparr> \<and>
   addOrdersResolver [ord] = Inr \<lparr> accepted = [accept_order ord], rejected = [] \<rparr> \<and>
   isNew (accept_order ord) \<and>
   Order.truncate (accepted_order (accept_order ord)) = ord"
  by (simp add: addOrdersResolver_eq truncate_accept_order) (simp add: accept_order_def)

lemma salt_newOrder_1: "salt newOrder_1 = ''1590244702461''"
  by (simp add: newOrder_1_def Order.truncate_def mockOrder_1_def)

lemma salt_newOrder_2: "salt newOrder_2 = ''1591360002494''"
  by (simp add: newOrder_2_def Order.truncate_def mockOrder_2_def)

lemma salt_newOrder_3: "salt newOrder_3 = ''1590244702462''"
  by (simp add: newOrder_3_def)

lemma newOrder_3_distinct: "newOrder_3 \<noteq> newOrder_1 \<and> newOrder_3 \<noteq> newOrder_2"
proof -
  have "salt newOrder_3 \<noteq> salt newOrder_1"
    by (simp add: salt_newOrder_1 salt_newOrder_3)
  moreover have "salt newOrder_3 \<noteq> salt newOrder_2"
    by (simp add: salt_newOrder_2 salt_newOrder_3)
  ultimately show ?thesis by metis
qed

text \<open>
  C3. \<open>addOrders\<close> is to put every submitted order in \<open>accepted\<close> or in \<open>rejected\<close>. It
  does not: \<open>R.splitEvery(1, orders)\<close> makes one slice per order and the destructuring
  pattern keeps the first two slices, so of three submitted orders the third is in
  neither list.
\<close>

theorem addOrders_drops_third_order:
  "addOrdersResolver [newOrder_1, newOrder_2, newOrder_3] =
     Inr \<lparr> accepted = [accept_order newOrder_1], rejected = [reject_order newOrder_2] \<rparr> \<and>
   newOrder_3 \<notin> set (map (\<lambda>r. Order.truncate (accepted_order r)) [accept_order newOrder_1]) \<and>
   newOrder_3 \<notin> set (map rejected_order [reject_order newOrder_2])"
  using newOrder_3_distinct
  by (simp add: addOrdersResolver_eq truncate_accept_order rejected_order_reject_order)

end
